theory Spec2Isabelle
  imports Main
begin

section \<open>Text helpers of \<^verbatim>\<open>main.py\<close>\<close>

text \<open>
  Python strings are modelled as \<^typ>\<open>string\<close>, one \<^typ>\<open>char\<close> per code point below 256.
  \<^verbatim>\<open>str.strip()\<close> and the regular expression class \<^verbatim>\<open>\s\<close> agree on which of these
  code points are whitespace: tab, line feed, vertical tab, form feed, carriage return,
  the four separators 0x1C..0x1F, space, 0x85 and 0xA0.
\<close>

definition is_space :: "char \<Rightarrow> bool" where
  "is_space c \<longleftrightarrow>
     c = CHR 0x09 \<or> c = CHR 0x0A \<or> c = CHR 0x0B \<or> c = CHR 0x0C \<or> c = CHR 0x0D \<or>
     c = CHR 0x1C \<or> c = CHR 0x1D \<or> c = CHR 0x1E \<or> c = CHR 0x1F \<or> c = CHR 0x20 \<or>
     c = CHR 0x85 \<or> c = CHR 0xA0"

text \<open>The character class \<^verbatim>\<open>[*_`#]\<close> of \<^verbatim>\<open>_normalize_for_speech\<close>.\<close>

definition is_markup :: "char \<Rightarrow> bool" where
  "is_markup c \<longleftrightarrow> c = CHR 0x2A \<or> c = CHR 0x5F \<or> c = CHR 0x60 \<or> c = CHR 0x23"

text \<open>The character class \<^verbatim>\<open>[.!?]\<close> of the look-behind in \<^verbatim>\<open>re.split\<close>.\<close>

definition is_sentence_end :: "char \<Rightarrow> bool" where
  "is_sentence_end c \<longleftrightarrow> c = CHR 0x2E \<or> c = CHR 0x21 \<or> c = CHR 0x3F"

text \<open>\<^verbatim>\<open>s.strip()\<close>\<close>

definition strip :: "string \<Rightarrow> string" where
  "strip s = rev (dropWhile is_space (rev (dropWhile is_space s)))"

text \<open>\<^verbatim>\<open>text.replace("\n", " ")\<close>\<close>

definition replace_newlines :: "string \<Rightarrow> string" where
  "replace_newlines s = map (\<lambda>c. if c = CHR 0x0A then CHR 0x20 else c) s"

text \<open>
  \<^verbatim>\<open>re.sub(r"<class>+", " ", s)\<close>: every maximal run of characters of the class is
  replaced by one space.
\<close>

function sub_runs :: "(char \<Rightarrow> bool) \<Rightarrow> string \<Rightarrow> string" where
  "sub_runs P [] = []"
| "sub_runs P (c # cs) =
     (if P c then CHR 0x20 # sub_runs P (dropWhile P cs) else c # sub_runs P cs)"
  by pat_completeness auto
termination
  by (relation "measure (\<lambda>(P, s). length s)")
     (auto simp: length_dropWhile_le less_Suc_eq_le)

definition normalize_for_speech :: "string \<Rightarrow> string" where
  "normalize_for_speech text =
     strip (sub_runs is_space (sub_runs is_markup (replace_newlines text)))"

text \<open>
  \<^verbatim>\<open>re.split(r'(?<=[.!?])\s+', s)\<close>: a match starts at a whitespace character whose
  predecessor is one of \<^verbatim>\<open>.!?\<close> and takes the whole whitespace run. \<open>prev\<close> says
  whether the character before the current position is such a sentence end, \<open>cur\<close> is
  the piece collected since the last match.
\<close>

function split_after_sentence_end :: "bool \<Rightarrow> string \<Rightarrow> string \<Rightarrow> string list" where
  "split_after_sentence_end prev cur [] = [cur]"
| "split_after_sentence_end prev cur (c # cs) =
     (if prev \<and> is_space c
      then cur # split_after_sentence_end False [] (dropWhile is_space cs)
      else split_after_sentence_end (is_sentence_end c) (cur @ [c]) cs)"
  by pat_completeness auto
termination
  by (relation "measure (\<lambda>(prev, cur, s). length s)")
     (auto simp: length_dropWhile_le less_Suc_eq_le)

text \<open>
  \<^verbatim>\<open>[p.strip() for p in re.split(r'(?<=[.!?])\s+', normalized) if p.strip()]\<close>
\<close>

definition sentence_parts :: "string \<Rightarrow> string list" where
  "sentence_parts normalized =
     map strip (filter (\<lambda>p. strip p \<noteq> []) (split_after_sentence_end False [] normalized))"

text \<open>\<^verbatim>\<open>" ".join(xs)\<close>\<close>

fun join_spaces :: "string list \<Rightarrow> string" where
  "join_spaces [] = []"
| "join_spaces [x] = x"
| "join_spaces (x # y # ys) = x @ CHR 0x20 # join_spaces (y # ys)"

text \<open>\<^verbatim>\<open>str(n)\<close> for an integer, as the f-string of \<^verbatim>\<open>_navigate_detail\<close> formats it.\<close>

definition digit_char :: "nat \<Rightarrow> char" where
  "digit_char d = char_of (48 + d)"

fun show_nat :: "nat \<Rightarrow> string" where
  "show_nat n = (if n < 10 then [digit_char n] else show_nat (n div 10) @ [digit_char (n mod 10)])"

declare show_nat.simps [simp del]

definition show_int :: "int \<Rightarrow> string" where
  "show_int i = (if i < 0 then CHR 0x2D # show_nat (nat (- i)) else show_nat (nat i))"

section \<open>The detail cursor\<close>

datatype py_error = IndexError | RuntimeError | OSError

text \<open>
  The two fields of \<^verbatim>\<open>VisionAssistant\<close> guarded by \<^verbatim>\<open>_state_lock\<close>.
\<close>

record cursor =
  description_sections :: "string list"
  current_detail_index :: int

text \<open>\<^verbatim>\<open>details[index]\<close>: a negative index counts from the end, out of range raises.\<close>

definition py_index :: "'a list \<Rightarrow> int \<Rightarrow> py_error + 'a" where
  "py_index xs i =
     (if 0 \<le> i \<and> i < int (length xs) then Inr (xs ! nat i)
      else if i < 0 \<and> - int (length xs) \<le> i then Inr (xs ! nat (int (length xs) + i))
      else Inl IndexError)"

text \<open>\<^verbatim>\<open>VisionAssistant._store_description_details\<close>\<close>

definition store_description_details :: "string \<Rightarrow> cursor \<Rightarrow> cursor" where
  "store_description_details description s =
     (let normalized = normalize_for_speech description;
          parts = sentence_parts normalized;
          parts = (if parts = []
                   then [if normalized \<noteq> [] then normalized else ''No details available.'']
                   else parts)
      in s\<lparr>description_sections := parts, current_detail_index := - 1\<rparr>)"

text \<open>\<^verbatim>\<open>VisionAssistant._build_summary\<close>\<close>

definition build_summary :: "string \<Rightarrow> string" where
  "build_summary description =
     (let normalized = normalize_for_speech description;
          parts = sentence_parts normalized
      in if parts = []
         then (if normalized \<noteq> [] then normalized else ''No description returned.'')
         else join_spaces (take 2 parts))"

text \<open>
  The block of \<^verbatim>\<open>VisionAssistant._navigate_detail\<close> that runs under \<^verbatim>\<open>_state_lock\<close>:
  it yields the message to narrate (or the exception of the subscript) and the cursor
  as the block leaves it. The index is stored before the section is read.
\<close>

definition detail_message :: "int \<Rightarrow> string list \<Rightarrow> string \<Rightarrow> string" where
  "detail_message index details text =
     ''Detail '' @ show_int (index + 1) @ '' of '' @ show_nat (length details) @ ''. '' @ text"

definition navigate_cursor :: "int \<Rightarrow> cursor \<Rightarrow> (py_error + string) \<times> cursor" where
  "navigate_cursor step s =
     (let details = description_sections s;
          index = current_detail_index s
      in if details = []
         then (Inr ''No details available yet. Press control plus M first.'', s)
         else
           (let index =
                  (if index = - 1 then (if step > 0 then 0 else int (length details) - 1)
                   else if step > 0 \<and> index < int (length details) - 1 then index + 1
                   else if step < 0 \<and> index > 0 then index - 1
                   else index);
                s' = s\<lparr>current_detail_index := index\<rparr>
            in (case py_index details index of
                  Inl e \<Rightarrow> (Inl e, s')
                | Inr text \<Rightarrow> (Inr (detail_message index details text), s'))))"

text \<open>The cursor as \<^verbatim>\<open>VisionAssistant.__init__\<close> creates it.\<close>

definition initial_cursor :: cursor where
  "initial_cursor = \<lparr>description_sections = [], current_detail_index = - 1\<rparr>"

text \<open>
  The data-model invariant of a loaded cursor: some section exists and the index is
  \<open>-1\<close> or the position of a section.
\<close>

definition cursor_loaded :: "cursor \<Rightarrow> bool" where
  "cursor_loaded s \<longleftrightarrow>
     description_sections s \<noteq> [] \<and> - 1 \<le> current_detail_index s \<and>
     current_detail_index s < int (length (description_sections s))"

section \<open>The speech pipeline: \<^verbatim>\<open>speak\<close>\<close>

text \<open>
  \<^verbatim>\<open>speak\<close> reads the suppression signal \<^verbatim>\<open>speak._stop_event\<close>, which other threads set
  and clear while it runs. Every \<^verbatim>\<open>is_set()\<close> of the source is one poll point; the
  environment of a call says what each poll reads. \<open>WavePlayback i\<close> stands for the polls
  of the playback loop of iteration \<open>i\<close>: it reads \<open>True\<close> when one of them sees the
  signal set before the deadline.
\<close>

datatype poll_point =
    AtEntry
  | LoopTop nat
  | WaveEntry nat
  | WaveAfterSynthesis nat
  | WavePlayback nat
  | BeforeCscript nat
  | CscriptEntry nat
  | CscriptAfter nat
  | BeforePowershell nat
  | PowershellEntry nat
  | PowershellAfter nat
  | Pyttsx3Entry nat

text \<open>What running an external process does: the call raises, or the process exits with a code.\<close>

datatype proc_result = Raises py_error | Exited int

record speech_env =
  stop_set :: "poll_point \<Rightarrow> bool"
  active_proc :: bool
  wave_tempfile :: "nat \<Rightarrow> py_error option"
  wave_synthesis :: "nat \<Rightarrow> proc_result"
  wave_playback :: "nat \<Rightarrow> py_error option"
  cscript_run :: "nat \<Rightarrow> proc_result"
  powershell_run :: "nat \<Rightarrow> proc_result"
  pyttsx3_run :: "nat \<Rightarrow> py_error option"

datatype backend = WaveFile | Cscript | PowerShell | Pyttsx3

text \<open>
  What a call does, in order: \<open>Attempt i b\<close> when iteration \<open>i\<close> starts the external
  mechanism of backend \<open>b\<close>, \<open>Audible b text\<close> when \<open>b\<close> spoke the text to its end,
  \<open>LoggedFailure b\<close> for a \<^verbatim>\<open>logging.error\<close> of \<open>b\<close>, \<open>Interrupted b\<close> when the signal cut
  \<open>b\<close> short, \<open>Suppressed\<close> for the log line of the entry check, \<open>TerminatedActive\<close> for
  the \<^verbatim>\<open>terminate()\<close> of \<^verbatim>\<open>interrupt=True\<close>.
\<close>

datatype speech_event =
    Attempt nat backend
  | Audible backend string
  | LoggedFailure backend
  | Interrupted backend
  | Suppressed
  | TerminatedActive

text \<open>
  \<^verbatim>\<open>_speak_via_wave_file\<close>: the flag it returns, what it did, and the exception that leaves
  it (only \<^verbatim>\<open>tempfile.mkstemp\<close> stands outside its \<^verbatim>\<open>try\<close>).
\<close>

definition speak_via_wave_file ::
  "speech_env \<Rightarrow> nat \<Rightarrow> string \<Rightarrow> bool \<times> speech_event list \<times> py_error option" where
  "speak_via_wave_file e i utterance =
     (if stop_set e (WaveEntry i) then (True, [], None)
      else
        (case wave_tempfile e i of
           Some err \<Rightarrow> (False, [], Some err)
         | None \<Rightarrow>
            (case wave_synthesis e i of
               Raises err \<Rightarrow> (False, [Attempt i WaveFile, LoggedFailure WaveFile], None)
             | Exited rc \<Rightarrow>
                (if rc \<noteq> 0 then (False, [Attempt i WaveFile, LoggedFailure WaveFile], None)
                 else if stop_set e (WaveAfterSynthesis i) then (True, [Attempt i WaveFile], None)
                 else
                   (case wave_playback e i of
                      Some err \<Rightarrow> (False, [Attempt i WaveFile, LoggedFailure WaveFile], None)
                    | None \<Rightarrow>
                       (if stop_set e (WavePlayback i)
                        then (True, [Attempt i WaveFile, Interrupted WaveFile], None)
                        else (True, [Attempt i WaveFile, Audible WaveFile utterance], None)))))))"

text \<open>\<^verbatim>\<open>_speak_via_cscript\<close>: no \<^verbatim>\<open>try\<close> around the script file and the \<^verbatim>\<open>Popen\<close>.\<close>

definition speak_via_cscript ::
  "speech_env \<Rightarrow> nat \<Rightarrow> string \<Rightarrow> bool \<times> speech_event list \<times> py_error option" where
  "speak_via_cscript e i utterance =
     (if stop_set e (CscriptEntry i) then (True, [], None)
      else
        (case cscript_run e i of
           Raises err \<Rightarrow> (False, [Attempt i Cscript], Some err)
         | Exited rc \<Rightarrow>
            (if stop_set e (CscriptAfter i)
             then (True, [Attempt i Cscript, Interrupted Cscript], None)
             else if rc \<noteq> 0 then (False, [Attempt i Cscript, LoggedFailure Cscript], None)
             else (True, [Attempt i Cscript, Audible Cscript utterance], None))))"

text \<open>\<^verbatim>\<open>_speak_via_pyttsx3\<close>: \<^verbatim>\<open>engine.say\<close> and \<^verbatim>\<open>engine.runAndWait\<close>, unguarded.\<close>

definition speak_via_pyttsx3 ::
  "speech_env \<Rightarrow> nat \<Rightarrow> string \<Rightarrow> speech_event list \<times> py_error option" where
  "speak_via_pyttsx3 e i utterance =
     (if stop_set e (Pyttsx3Entry i) then ([], None)
      else
        (case pyttsx3_run e i of
           Some err \<Rightarrow> ([Attempt i Pyttsx3], Some err)
         | None \<Rightarrow> ([Attempt i Pyttsx3, Audible Pyttsx3 utterance], None)))"

text \<open>
  \<^verbatim>\<open>_speak_via_powershell\<close>: the only caller of the \<^verbatim>\<open>pyttsx3\<close> fallback, on a non-zero
  return code.
\<close>

definition speak_via_powershell ::
  "speech_env \<Rightarrow> nat \<Rightarrow> string \<Rightarrow> speech_event list \<times> py_error option" where
  "speak_via_powershell e i utterance =
     (if stop_set e (PowershellEntry i) then ([], None)
      else
        (case powershell_run e i of
           Raises err \<Rightarrow> ([Attempt i PowerShell], Some err)
         | Exited rc \<Rightarrow>
            (if stop_set e (PowershellAfter i)
             then ([Attempt i PowerShell, Interrupted PowerShell], None)
             else if rc \<noteq> 0
             then (case speak_via_pyttsx3 e i utterance of
                     (evs, exc) \<Rightarrow> (Attempt i PowerShell # LoggedFailure PowerShell # evs, exc))
             else ([Attempt i PowerShell, Audible PowerShell utterance], None))))"

text \<open>
  One pass through the body of \<^verbatim>\<open>for _ in range(max(1, repeat))\<close>: how the pass ends
  (\<^verbatim>\<open>continue\<close> or falling off the end of the body go on with the next pass,
  \<^verbatim>\<open>break\<close> leaves the loop), what it did, and the exception that leaves it.
\<close>

datatype flow = Continue | Break

definition speak_iteration ::
  "speech_env \<Rightarrow> string \<Rightarrow> nat \<Rightarrow> flow \<times> speech_event list \<times> py_error option" where
  "speak_iteration e text i =
     (if stop_set e (LoopTop i) then (Break, [], None)
      else
        (case speak_via_wave_file e i text of
           (ok1, evs1, Some err) \<Rightarrow> (Break, evs1, Some err)
         | (True, evs1, None) \<Rightarrow> (Continue, evs1, None)
         | (False, evs1, None) \<Rightarrow>
             (if stop_set e (BeforeCscript i) then (Break, evs1, None)
              else
                (case speak_via_cscript e i text of
                   (ok2, evs2, Some err) \<Rightarrow> (Break, evs1 @ evs2, Some err)
                 | (True, evs2, None) \<Rightarrow> (Continue, evs1 @ evs2, None)
                 | (False, evs2, None) \<Rightarrow>
                     (if stop_set e (BeforePowershell i) then (Break, evs1 @ evs2, None)
                      else
                        (case speak_via_powershell e i text of
                           (evs3, Some err) \<Rightarrow> (Break, evs1 @ evs2 @ evs3, Some err)
                         | (evs3, None) \<Rightarrow> (Continue, evs1 @ evs2 @ evs3, None)))))))"

text \<open>The loop from iteration \<open>i\<close> with \<open>n\<close> iterations left.\<close>

fun speak_iterations ::
  "speech_env \<Rightarrow> string \<Rightarrow> nat \<Rightarrow> nat \<Rightarrow> speech_event list \<times> py_error option" where
  "speak_iterations e text i 0 = ([], None)"
| "speak_iterations e text i (Suc n) =
     (case speak_iteration e text i of
        (Break, evs, exc) \<Rightarrow> (evs, exc)
      | (Continue, evs, exc) \<Rightarrow>
          (case speak_iterations e text (Suc i) n of (evs', exc') \<Rightarrow> (evs @ evs', exc')))"

text \<open>
  \<^verbatim>\<open>speak(engine, text, interrupt, repeat)\<close>: what the call did and the exception it
  raises, if any.
\<close>

definition speak ::
  "speech_env \<Rightarrow> string \<Rightarrow> bool \<Rightarrow> int \<Rightarrow> speech_event list \<times> py_error option" where
  "speak e text interrupt repeat =
     (if stop_set e AtEntry then ([Suppressed], None)
      else
        (case speak_iterations e text 0 (nat (max 1 repeat)) of
           (evs, exc) \<Rightarrow>
             ((if interrupt \<and> active_proc e then [TerminatedActive] else []) @ evs, exc)))"

text \<open>The events of a call that say a backend spoke the text to its end.\<close>

fun is_audible :: "speech_event \<Rightarrow> bool" where
  "is_audible (Audible b text) = True"
| "is_audible _ = False"

section \<open>One transcription attempt: \<^verbatim>\<open>transcribe_from_microphone\<close>\<close>

text \<open>
  Times are milliseconds of \<^verbatim>\<open>time.time()\<close>. The environment of an attempt holds what
  \<^verbatim>\<open>subprocess.Popen\<close> does, the clock when the deadline is computed, the time from which
  \<^verbatim>\<open>proc.poll()\<close> reports an exit (\<open>None\<close> for a process that hangs), the exit code and
  output of the process, and how much longer than its 50 ms each \<^verbatim>\<open>time.sleep(0.05)\<close>
  takes. The two events are parameters, as in the source: \<open>None\<close> when the caller passes
  none, otherwise what \<^verbatim>\<open>is_set()\<close> reads at a given time.
\<close>

record attempt_env =
  popen_raises :: "py_error option"
  started_at :: int
  exits_at :: "int option"
  returncode :: int
  stdout_text :: string
  sleep_extra :: "int \<Rightarrow> nat"

datatype attempt_end = ProcessExited | CanceledByUser | StoppedBySubmit | TimedOut | SpawnFailed

record attempt_result =
  transcript :: "string option"
  ended :: attempt_end
  terminated :: bool
  returned_at :: int

definition process_exited :: "attempt_env \<Rightarrow> int \<Rightarrow> bool" where
  "process_exited e now = (case exits_at e of None \<Rightarrow> False | Some t \<Rightarrow> t \<le> now)"

definition event_is_set :: "(int \<Rightarrow> bool) option \<Rightarrow> int \<Rightarrow> bool" where
  "event_is_set ev now = (case ev of None \<Rightarrow> False | Some f \<Rightarrow> f now)"

text \<open>\<^verbatim>\<open>deadline = time.time() + max(timeout_seconds + 5, 12)\<close>\<close>

definition attempt_deadline :: "int \<Rightarrow> attempt_env \<Rightarrow> int" where
  "attempt_deadline timeout_seconds e = started_at e + 1000 * max (timeout_seconds + 5) 12"

text \<open>
  The loop \<^verbatim>\<open>while proc.poll() is None\<close>: why it ends and when. One pass reads the clock
  once.
\<close>

function watch_process ::
  "(int \<Rightarrow> bool) option \<Rightarrow> (int \<Rightarrow> bool) option \<Rightarrow> attempt_env \<Rightarrow> int \<Rightarrow> int \<Rightarrow>
   attempt_end \<times> int" where
  "watch_process cancel_event stop_event e deadline now =
     (if process_exited e now then (ProcessExited, now)
      else if event_is_set cancel_event now then (CanceledByUser, now)
      else if event_is_set stop_event now then (StoppedBySubmit, now)
      else if now > deadline then (TimedOut, now)
      else watch_process cancel_event stop_event e deadline (now + 50 + int (sleep_extra e now)))"
  by pat_completeness auto
termination
  by (relation "measure (\<lambda>(c, s, e, deadline, now). nat (deadline + 1 - now))") auto

declare watch_process.simps [simp del]

definition transcribe_from_microphone ::
  "int \<Rightarrow> (int \<Rightarrow> bool) option \<Rightarrow> (int \<Rightarrow> bool) option \<Rightarrow> attempt_env \<Rightarrow> attempt_result" where
  "transcribe_from_microphone timeout_seconds cancel_event stop_event e =
     (case popen_raises e of
        Some err \<Rightarrow>
          \<lparr>transcript = None, ended = SpawnFailed, terminated = False,
           returned_at = started_at e\<rparr>
      | None \<Rightarrow>
         (case watch_process cancel_event stop_event e
                 (attempt_deadline timeout_seconds e) (started_at e) of
            (ProcessExited, t) \<Rightarrow>
              \<lparr>transcript =
                 (if event_is_set stop_event t then None
                  else if returncode e \<noteq> 0 then None
                  else if strip (stdout_text e) = [] then None
                  else Some (strip (stdout_text e))),
               ended = ProcessExited, terminated = False, returned_at = t\<rparr>
          | (why, t) \<Rightarrow>
              \<lparr>transcript = None, ended = why, terminated = True, returned_at = t\<rparr>))"

section \<open>The orchestrator: \<^verbatim>\<open>VisionAssistant\<close>\<close>

text \<open>
  The fields of \<^verbatim>\<open>VisionAssistant\<close> that its handlers and task bodies share, with
  \<^verbatim>\<open>speak._stop_event\<close>. \<open>threads\<close> holds the task threads a handler has started and
  whose body has not run yet; \<open>effects\<close> is what the program has done so far, oldest
  first. Logging and the progress ticks are left out.
\<close>

datatype task = CaptureTask | FollowUpTask | NavigateTask int

datatype hotkey =
  Capture | FollowUp | StopSpeaking | CancelTask | SetApiKey | NextDetail | PreviousDetail

datatype effect =
    Beeps "(nat \<times> nat) list"
  | AudioCue string
  | Printed string
  | SpeechStopped
  | TranscriptionCanceled
  | QueryCanceled
  | CancelRequested
  | ThreadStarted task
  | KeyPromptStarted
  | CancelPolled bool
  | Narration string "speech_event list"
  | GateReleased
  | ThreadDied py_error

record assistant =
  capture_lock :: bool
  task_cancel_event :: bool
  active_task_name :: "string option"
  follow_up_listening_event :: bool
  follow_up_submit_event :: bool
  details :: cursor
  speech_stop_event :: bool
  api_key :: "string option"
  threads :: "task list"
  effects :: "effect list"

text \<open>The state that \<^verbatim>\<open>__init__\<close> leaves, by the key that \<^verbatim>\<open>get_api_key\<close> found.\<close>

definition initial_assistant :: "string option \<Rightarrow> assistant" where
  "initial_assistant key =
     \<lparr>capture_lock = False, task_cancel_event = False, active_task_name = None,
      follow_up_listening_event = False, follow_up_submit_event = False,
      details = initial_cursor, speech_stop_event = False, api_key = key,
      threads = [], effects = []\<rparr>"

definition emit :: "effect list \<Rightarrow> assistant \<Rightarrow> assistant" where
  "emit effs s = s\<lparr>effects := effects s @ effs\<rparr>"

text \<open>\<^verbatim>\<open>stop_current_speech\<close>, \<^verbatim>\<open>clear_speech_stop_request\<close>\<close>

definition stop_current_speech :: "assistant \<Rightarrow> assistant" where
  "stop_current_speech s = emit [SpeechStopped] (s\<lparr>speech_stop_event := True\<rparr>)"

definition clear_speech_stop_request :: "assistant \<Rightarrow> assistant" where
  "clear_speech_stop_request s = s\<lparr>speech_stop_event := False\<rparr>"

text \<open>\<^verbatim>\<open>_set_active_task\<close>\<close>

definition set_active_task :: "string option \<Rightarrow> assistant \<Rightarrow> assistant" where
  "set_active_task task_name s = s\<lparr>active_task_name := task_name\<rparr>"

text \<open>
  \<^verbatim>\<open>threading.Thread(target=..., daemon=True).start()\<close> for a task body.
\<close>

definition start_thread :: "task \<Rightarrow> assistant \<Rightarrow> assistant" where
  "start_thread t s = emit [ThreadStarted t] (s\<lparr>threads := threads s @ [t]\<rparr>)"

text \<open>
  The denial that the four gated handlers share: \<^verbatim>\<open>_capture_lock.acquire(timeout=0.8)\<close>
  returned \<open>False\<close>. Handlers and task steps are atomic here, so a lock that a task
  gives up during the wait is a lock that was free when the handler ran.
\<close>

definition deny :: "string \<Rightarrow> assistant \<Rightarrow> assistant" where
  "deny message s = emit [Printed message, Beeps [(420, 90), (380, 90)]] s"

text \<open>\<^verbatim>\<open>_on_capture_hotkey\<close>\<close>

definition on_capture_hotkey :: "assistant \<Rightarrow> assistant" where
  "on_capture_hotkey s0 =
     (let s = stop_current_speech s0 in
      if capture_lock s
      then deny ''Capture already in progress. Press Ctrl+Shift+X to cancel it.'' s
      else
        (let s = s\<lparr>capture_lock := True\<rparr>;
             s = clear_speech_stop_request s;
             s = s\<lparr>task_cancel_event := False\<rparr>;
             s = set_active_task (Some ''capture'') s;
             s = emit [Beeps [(740, 60), (900, 70)],
                       Printed ''Hotkey detected: capturing screen...''] s
         in start_thread CaptureTask s))"

text \<open>\<^verbatim>\<open>_on_follow_up_hotkey\<close>\<close>

definition on_follow_up_hotkey :: "assistant \<Rightarrow> assistant" where
  "on_follow_up_hotkey s0 =
     (if follow_up_listening_event s0
      then emit [TranscriptionCanceled,
                 Printed ''Stopping recording and sending your follow-up question...'',
                 AudioCue ''SystemAsterisk'']
             (s0\<lparr>follow_up_submit_event := True\<rparr>)
      else
        (let s = stop_current_speech s0 in
         if capture_lock s
         then deny ''Capture already in progress. Press Ctrl+Shift+X to cancel it.'' s
         else
           (let s = s\<lparr>capture_lock := True\<rparr>;
                s = clear_speech_stop_request s;
                s = s\<lparr>task_cancel_event := False\<rparr>;
                s = set_active_task (Some ''follow-up'') s;
                s = s\<lparr>follow_up_submit_event := False\<rparr>;
                s = emit [Beeps [(760, 60), (1040, 80)],
                          Printed ''Follow-up hotkey detected: preparing voice recording...''] s
            in start_thread FollowUpTask s)))"

text \<open>\<^verbatim>\<open>_on_stop_speaking_hotkey\<close>\<close>

definition on_stop_speaking_hotkey :: "assistant \<Rightarrow> assistant" where
  "on_stop_speaking_hotkey s0 =
     (let s = stop_current_speech s0
      in emit [Printed ''Speech stopped. You can trigger the next action now.'',
               Beeps [(500, 70), (420, 90)]] s)"

text \<open>\<^verbatim>\<open>str.capitalize()\<close> on the task names, which are lower-case ASCII.\<close>

definition capitalize :: "string \<Rightarrow> string" where
  "capitalize w =
     (case w of [] \<Rightarrow> []
      | c # cs \<Rightarrow>
          (if (97::nat) \<le> of_char c \<and> of_char c \<le> (122::nat)
           then char_of (of_char c - (32::nat)) else c) # cs)"

text \<open>\<^verbatim>\<open>_on_cancel_task_hotkey\<close>\<close>

definition on_cancel_task_hotkey :: "assistant \<Rightarrow> assistant" where
  "on_cancel_task_hotkey s0 =
     (let active_task = active_task_name s0;
          s = s0\<lparr>task_cancel_event := True\<rparr>;
          s = s\<lparr>follow_up_submit_event := True\<rparr>;
          s = s\<lparr>follow_up_listening_event := False\<rparr>;
          s = emit [CancelRequested, TranscriptionCanceled, QueryCanceled] s;
          s = stop_current_speech s;
          s = (case active_task of
                 Some name \<Rightarrow>
                   if name \<noteq> []
                   then emit [Printed (capitalize name @ '' task canceled. Ready for next command.'')] s
                   else emit [Printed ''No capture task was running. Speech was stopped.''] s
               | None \<Rightarrow> emit [Printed ''No capture task was running. Speech was stopped.''] s)
      in emit [Beeps [(460, 70), (390, 90), (320, 110)]] s)"

text \<open>
  \<^verbatim>\<open>_on_set_api_key_hotkey\<close>. The thread it starts prompts for a key outside the gate; what
  that thread does is not part of this model.
\<close>

definition on_set_api_key_hotkey :: "assistant \<Rightarrow> assistant" where
  "on_set_api_key_hotkey s0 =
     (let s = stop_current_speech s0;
          s = clear_speech_stop_request s
      in emit [KeyPromptStarted] s)"

text \<open>\<^verbatim>\<open>_on_next_detail_hotkey\<close> and \<^verbatim>\<open>_on_previous_detail_hotkey\<close>, by their step.\<close>

definition on_detail_hotkey :: "int \<Rightarrow> assistant \<Rightarrow> assistant" where
  "on_detail_hotkey step s0 =
     (let s = stop_current_speech s0 in
      if capture_lock s
      then deny ''Action still in progress. Please try again.'' s
      else
        (let s = s\<lparr>capture_lock := True\<rparr>;
             s = clear_speech_stop_request s
         in start_thread (NavigateTask step) s))"

definition on_next_detail_hotkey :: "assistant \<Rightarrow> assistant" where
  "on_next_detail_hotkey = on_detail_hotkey 1"

definition on_previous_detail_hotkey :: "assistant \<Rightarrow> assistant" where
  "on_previous_detail_hotkey = on_detail_hotkey (- 1)"

text \<open>The handler that \<^verbatim>\<open>keyboard.add_hotkey\<close> binds to each key.\<close>

fun press :: "hotkey \<Rightarrow> assistant \<Rightarrow> assistant" where
  "press Capture = on_capture_hotkey"
| "press FollowUp = on_follow_up_hotkey"
| "press StopSpeaking = on_stop_speaking_hotkey"
| "press CancelTask = on_cancel_task_hotkey"
| "press SetApiKey = on_set_api_key_hotkey"
| "press NextDetail = on_next_detail_hotkey"
| "press PreviousDetail = on_previous_detail_hotkey"

section \<open>Task bodies\<close>

text \<open>
  A task body runs on its own thread while the keyboard thread keeps handling hotkeys.
  The environment of one body says which hotkeys are handled at each of the points where
  the body looks at shared state (\<open>arrivals\<close>, by the number of the point), what each of
  its \<^verbatim>\<open>speak\<close> calls meets (\<open>speech\<close>, by the number of the call), the result of
  \<^verbatim>\<open>prompt_for_api_key\<close>, whether saving the key fails, the text of the screenshot
  exception if there is one, the answer of the model, and the passes of the dictation
  loop.
\<close>

record iteration =
  elapsed_at_test :: int
  pressed_before :: "hotkey list"
  elapsed_at_remaining :: int
  cancel_seen :: "int \<Rightarrow> bool"
  submit_seen :: "int \<Rightarrow> bool"
  attempt :: attempt_env
  pressed_during :: "hotkey list"

record task_env =
  arrivals :: "nat \<Rightarrow> hotkey list"
  speech :: "nat \<Rightarrow> speech_env"
  prompt_result :: "string option"
  save_key_fails :: bool
  screenshot_error :: "string option"
  model_response :: string
  dictation :: "iteration list"

definition handle_all :: "hotkey list \<Rightarrow> assistant \<Rightarrow> assistant" where
  "handle_all hs s = foldl (\<lambda>s h. press h s) s hs"

definition arrive :: "task_env \<Rightarrow> nat \<Rightarrow> assistant \<Rightarrow> assistant" where
  "arrive env k s = handle_all (arrivals env k) s"

text \<open>
  How a block of a body ends: it goes on with a value, the body returns, or an exception
  leaves the body.
\<close>

datatype 'a step = Go 'a | Return | Throw py_error

fun then_do ::
  "'a step \<times> assistant \<Rightarrow> ('a \<Rightarrow> assistant \<Rightarrow> 'b step \<times> assistant) \<Rightarrow> 'b step \<times> assistant" where
  "then_do (Go a, s) f = f a s"
| "then_do (Return, s) f = (Return, s)"
| "then_do (Throw e, s) f = (Throw e, s)"

text \<open>\<^verbatim>\<open>self._task_cancel_event.is_set()\<close>, with the reading noted in \<open>effects\<close>.\<close>

definition poll_cancel :: "assistant \<Rightarrow> bool \<times> assistant" where
  "poll_cancel s = (task_cancel_event s, emit [CancelPolled (task_cancel_event s)] s)"

text \<open>
  \<^verbatim>\<open>if self._task_cancel_event.is_set(): print(...); return\<close>; the first check of a body
  prints nothing.
\<close>

definition check_cancel :: "string option \<Rightarrow> assistant \<Rightarrow> unit step \<times> assistant" where
  "check_cancel message s0 =
     (case poll_cancel s0 of
        (True, s) \<Rightarrow>
          (Return, (case message of None \<Rightarrow> s | Some m \<Rightarrow> emit [Printed m] s))
      | (False, s) \<Rightarrow> (Go (), s))"

text \<open>
  A call \<^verbatim>\<open>speak(self.engine, text, interrupt=...)\<close> of a body: the entry check reads the
  signal as it is, the later polls read what the environment of the call says.
\<close>

definition say :: "task_env \<Rightarrow> nat \<Rightarrow> string \<Rightarrow> bool \<Rightarrow> assistant \<Rightarrow> py_error option \<times> assistant" where
  "say env k text interrupt s =
     (let e = (speech env k)\<lparr>stop_set := (stop_set (speech env k))(AtEntry := speech_stop_event s)\<rparr>
      in case speak e text interrupt 1 of
           (evs, exc) \<Rightarrow> (exc, emit [Narration text evs] s))"

definition narrate :: "task_env \<Rightarrow> nat \<Rightarrow> string \<Rightarrow> bool \<Rightarrow> assistant \<Rightarrow> unit step \<times> assistant" where
  "narrate env k text interrupt s =
     (case say env k text interrupt s of
        (None, s') \<Rightarrow> (Go (), s')
      | (Some err, s') \<Rightarrow> (Throw err, s'))"

text \<open>\<^verbatim>\<open>not self.api_key\<close>\<close>

definition no_api_key :: "assistant \<Rightarrow> bool" where
  "no_api_key s = (case api_key s of None \<Rightarrow> True | Some k \<Rightarrow> k = [])"

text \<open>The file name of \<^verbatim>\<open>CONFIG_PATH\<close>; its directory is chosen at start-up.\<close>

definition config_path :: string where
  "config_path = ''config.json''"

text \<open>
  \<^verbatim>\<open>set_api_key\<close>: the key as stored, or \<open>None\<close> for an empty key or a failed save.
\<close>

definition set_api_key :: "task_env \<Rightarrow> string \<Rightarrow> string option" where
  "set_api_key env key =
     (let cleaned_key = strip key
      in if cleaned_key = [] then None
         else if save_key_fails env then None
         else Some cleaned_key)"

text \<open>
  \<^verbatim>\<open>_ensure_api_key_configured(force_prompt)\<close>; \<open>k\<close> numbers its first \<^verbatim>\<open>speak\<close> call.
\<close>

definition ensure_api_key_configured ::
  "task_env \<Rightarrow> nat \<Rightarrow> bool \<Rightarrow> assistant \<Rightarrow> unit step \<times> assistant" where
  "ensure_api_key_configured env k force_prompt s0 =
     (if \<not> no_api_key s0 \<and> \<not> force_prompt then (Go (), s0)
      else
        then_do
          (narrate env k
             (if force_prompt
              then ''API key update requested. Please enter your Gemini API key now.''
              else ''Gemini API key is not configured. Please enter it now.'') False s0)
          (\<lambda>_ s.
             (case (case prompt_result env of None \<Rightarrow> None
                    | Some key \<Rightarrow> if key = [] then None else Some key) of
                None \<Rightarrow>
                  (if force_prompt
                   then
                     then_do
                       (narrate env (Suc k) ''API key update canceled.'' False
                          (emit [Printed ''API key update canceled. Existing value unchanged.''] s))
                       (\<lambda>_ s. (Go (), emit [Beeps [(420, 90), (380, 90)]] s))
                   else
                     (Go (), emit [Printed (''No API key provided. You can set it later in '' @
                                     [CHR 0x27] @ config_path @ [CHR 0x27] @ ''.'')] s))
              | Some entered_key \<Rightarrow>
                  (case set_api_key env entered_key of
                     None \<Rightarrow>
                       then_do
                         (narrate env (Suc k)
                            ''Failed to save API key. Please update config.json manually.'' False s)
                         (\<lambda>_ s.
                            (Go (), emit [Printed (''Failed to save API key in '' @ [CHR 0x27] @
                                            config_path @ [CHR 0x27] @ ''.''),
                                          Beeps [(420, 90), (380, 90), (340, 90)]] s))
                   | Some saved_key \<Rightarrow>
                       then_do
                         (narrate env (Suc k)
                            (if force_prompt then ''API key updated successfully.''
                             else ''API key saved successfully.'') False
                            (emit [Printed (''API key saved and encrypted in '' @ [CHR 0x27] @
                                     config_path @ [CHR 0x27] @ ''.'')]
                               (s\<lparr>api_key := Some saved_key\<rparr>)))
                         (\<lambda>_ s. (Go (), emit [Beeps [(1200, 90), (1450, 120)]] s))))))"

text \<open>
  The block \<^verbatim>\<open>if not self.api_key: ...\<close> that opens both long task bodies; its \<^verbatim>\<open>speak\<close>
  calls are numbered \<open>k\<close>, \<open>k + 1\<close> and \<open>k + 2\<close>.
\<close>

definition missing_key_message :: string where
  "missing_key_message =
     ''API key is still missing. Please provide it when prompted, '' @
     ''or update config.json and try again.''"

definition require_api_key :: "task_env \<Rightarrow> nat \<Rightarrow> assistant \<Rightarrow> unit step \<times> assistant" where
  "require_api_key env k s0 =
     (if no_api_key s0
      then
        then_do (ensure_api_key_configured env k False s0)
          (\<lambda>_ s.
             if no_api_key s
             then
               then_do (narrate env (k + 2) missing_key_message False s)
                 (\<lambda>_ s. (Return, emit [Printed missing_key_message,
                                       Beeps [(420, 90), (380, 90), (340, 90)]] s))
             else (Go (), s))
      else (Go (), s0))"

text \<open>
  \<^verbatim>\<open>_capture_screenshot_bytes\<close> with the caller's \<^verbatim>\<open>if not img_bytes: return\<close>.
\<close>

definition capture_screenshot_bytes :: "task_env \<Rightarrow> nat \<Rightarrow> assistant \<Rightarrow> unit step \<times> assistant" where
  "capture_screenshot_bytes env k s0 =
     (case screenshot_error env of
        None \<Rightarrow> (Go (), s0)
      | Some exc \<Rightarrow>
          then_do (narrate env k (''Failed to take screenshot: '' @ exc) False s0)
            (\<lambda>_ s. (Return, emit [Printed (''Failed to take screenshot: '' @ exc),
                                  Beeps [(420, 90), (380, 90), (340, 90)]] s)))"

subsection \<open>The dictation loop\<close>

text \<open>\<^verbatim>\<open>int(x)\<close> of a time in seconds given in milliseconds: truncation towards zero.\<close>

definition trunc_seconds :: "int \<Rightarrow> int" where
  "trunc_seconds ms = (if 0 \<le> ms then ms div 1000 else - ((- ms) div 1000))"

text \<open>The end of \<^verbatim>\<open>_record_follow_up_question\<close>, after the loop.\<close>

definition finish_recording :: "string list \<Rightarrow> string option" where
  "finish_recording chunks = (if chunks = [] then None else Some (join_spaces chunks))"

text \<open>\<^verbatim>\<open>if chunk: text = chunk.strip(); if text: chunks.append(text); print(...)\<close>\<close>

definition keep_chunk :: "string option \<Rightarrow> string list \<Rightarrow> assistant \<Rightarrow> string list \<times> assistant" where
  "keep_chunk chunk chunks s =
     (case chunk of
        None \<Rightarrow> (chunks, s)
      | Some c \<Rightarrow>
          if c = [] \<or> strip c = [] then (chunks, s)
          else (chunks @ [strip c], emit [Printed (''Heard: '' @ strip c)] s))"

text \<open>
  One pass of the loop of \<^verbatim>\<open>_record_follow_up_question\<close>: the elapsed time its
  \<^verbatim>\<open>while\<close> test reads, the hotkeys handled before its first polls, the elapsed time read
  for \<^verbatim>\<open>remaining\<close>, the world of its transcription attempt, and the hotkeys handled while
  the attempt runs. The pass ends the function with a result, or hands the chunks to the
  next pass.
\<close>

datatype pass_end = Stop "string option" | Next "string list"

definition record_pass ::
  "int \<Rightarrow> int \<Rightarrow> iteration \<Rightarrow> string list \<Rightarrow> assistant \<Rightarrow> pass_end \<times> assistant" where
  "record_pass max_record_seconds chunk_seconds it chunks s0 =
     (if \<not> elapsed_at_test it < 1000 * max_record_seconds
      then (Stop (finish_recording chunks), s0)
      else
        (case poll_cancel (handle_all (pressed_before it) s0) of
           (True, s) \<Rightarrow> (Stop None, s)
         | (False, s) \<Rightarrow>
            (if follow_up_submit_event s then (Stop (finish_recording chunks), s)
             else
               (let remaining = max_record_seconds - trunc_seconds (elapsed_at_remaining it);
                    timeout = max 1 (min chunk_seconds remaining);
                    chunk = transcript (transcribe_from_microphone timeout
                              (Some (cancel_seen it)) (Some (submit_seen it)) (attempt it))
                in case poll_cancel (handle_all (pressed_during it) s) of
                     (True, s) \<Rightarrow> (Stop None, s)
                   | (False, s) \<Rightarrow>
                      (case keep_chunk chunk chunks s of
                         (chunks, s) \<Rightarrow>
                           if follow_up_submit_event s then (Stop (finish_recording chunks), s)
                           else (Next chunks, s))))))"

text \<open>
  The loop. The list holds the passes the clock allows: when it is used up, the
  \<^verbatim>\<open>while\<close> test reads an elapsed time of \<^verbatim>\<open>max_record_seconds\<close> or more.
\<close>

fun record_loop ::
  "int \<Rightarrow> int \<Rightarrow> iteration list \<Rightarrow> string list \<Rightarrow> assistant \<Rightarrow> string option \<times> assistant" where
  "record_loop max_record_seconds chunk_seconds [] chunks s = (finish_recording chunks, s)"
| "record_loop max_record_seconds chunk_seconds (it # its) chunks s =
     (case record_pass max_record_seconds chunk_seconds it chunks s of
        (Stop result, s') \<Rightarrow> (result, s')
      | (Next chunks', s') \<Rightarrow> record_loop max_record_seconds chunk_seconds its chunks' s')"

definition record_follow_up_question ::
  "int \<Rightarrow> int \<Rightarrow> iteration list \<Rightarrow> assistant \<Rightarrow> string option \<times> assistant" where
  "record_follow_up_question max_record_seconds chunk_seconds passes s =
     record_loop max_record_seconds chunk_seconds passes [] s"

subsection \<open>The three bodies\<close>

text \<open>\<^verbatim>\<open>self._capture_lock.release()\<close>\<close>

definition release :: "assistant \<Rightarrow> assistant" where
  "release s = emit [GateReleased] (s\<lparr>capture_lock := False\<rparr>)"

text \<open>An exception that leaves a body ends its thread, after the \<^verbatim>\<open>finally\<close> block.\<close>

definition thread_end :: "unit step \<Rightarrow> assistant \<Rightarrow> assistant" where
  "thread_end r s = (case r of Throw err \<Rightarrow> emit [ThreadDied err] s | _ \<Rightarrow> s)"

text \<open>The \<^verbatim>\<open>try\<close> block of \<^verbatim>\<open>_capture_and_describe\<close>.\<close>

definition capture_try :: "task_env \<Rightarrow> assistant \<Rightarrow> unit step \<times> assistant" where
  "capture_try env s0 =
     then_do (check_cancel None (arrive env 0 s0)) (\<lambda>_ s.
     then_do (require_api_key env 0 s) (\<lambda>_ s.
     then_do (check_cancel (Some ''Capture canceled.'') (arrive env 1 s)) (\<lambda>_ s.
     then_do (capture_screenshot_bytes env 3 s) (\<lambda>_ s.
     then_do (check_cancel (Some ''Capture canceled.'') (arrive env 2 s)) (\<lambda>_ s.
     then_do (check_cancel (Some ''Capture canceled.'')
                (arrive env 3
                   (emit [Beeps [(1100, 70)], Printed ''Analyzing screenshot. Please wait...''] s)))
       (\<lambda>_ s.
     then_do (narrate env 4 ''Summary is ready.'' True
                (arrive env 4
                   (emit [Printed ''Speaking summary now...'', Beeps [(1250, 90), (1500, 120)]]
                      ((emit [Printed (''Gemini description: '' @ model_response env)] s)
                         \<lparr>details := store_description_details (model_response env) (details s)\<rparr>))))
       (\<lambda>_ s.
     then_do (narrate env 5 (''Summary. '' @ build_summary (model_response env)) False
                (arrive env 5 s)) (\<lambda>_ s.
     narrate env 6
       (''Press control plus right arrow for next detail. '' @
        ''Press control plus left arrow for previous detail.'') False (arrive env 6 s)))))))))"

text \<open>\<^verbatim>\<open>_capture_and_describe\<close>: the \<^verbatim>\<open>try\<close> block, then its \<^verbatim>\<open>finally\<close>.\<close>

definition capture_and_describe :: "task_env \<Rightarrow> assistant \<Rightarrow> assistant" where
  "capture_and_describe env s0 =
     (case capture_try env s0 of
        (r, s) \<Rightarrow> thread_end r (release (set_active_task None s)))"

definition not_understood_message :: string where
  "not_understood_message =
     ''I could not understand the question. '' @ ''Please press control plus N and try again.''"

text \<open>
  The \<^verbatim>\<open>try\<close> block of \<^verbatim>\<open>_handle_follow_up_query\<close>, with \<^verbatim>\<open>max_record_seconds=30\<close> and
  \<^verbatim>\<open>chunk_seconds=3\<close>.
\<close>

definition follow_up_after_recording ::
  "task_env \<Rightarrow> string option \<Rightarrow> assistant \<Rightarrow> unit step \<times> assistant" where
  "follow_up_after_recording env heard s0 =
     then_do (check_cancel (Some ''Follow-up canceled.'') (arrive env 2 s0)) (\<lambda>_ s.
       (case (case heard of None \<Rightarrow> None | Some t \<Rightarrow> if t = [] then None else Some t) of
          None \<Rightarrow>
            then_do (narrate env 4 not_understood_message False
                       (emit [Printed not_understood_message] s))
              (\<lambda>_ s. (Return, emit [Beeps [(420, 90), (380, 90)]] s))
        | Some question \<Rightarrow>
            then_do (check_cancel (Some ''Follow-up canceled.'')
                       (arrive env 3 (emit [Printed (''Follow-up question: '' @ question)] s)))
              (\<lambda>_ s.
            then_do (capture_screenshot_bytes env 5 s) (\<lambda>_ s.
            then_do (check_cancel (Some ''Follow-up canceled.'') (arrive env 4 s)) (\<lambda>_ s.
            then_do (check_cancel (Some ''Follow-up canceled.'')
                       (arrive env 5
                          (emit [Beeps [(1100, 70)],
                                 Printed ''Analyzing follow-up question. Please wait...''] s)))
              (\<lambda>_ s.
            narrate env 6 (model_response env) True
              (arrive env 6
                 (emit [Printed (''Follow-up answer: '' @ model_response env),
                        Beeps [(1250, 90), (1500, 120)]] s))))))))"

definition follow_up_try :: "task_env \<Rightarrow> assistant \<Rightarrow> unit step \<times> assistant" where
  "follow_up_try env s0 =
     then_do (check_cancel None (arrive env 0 s0)) (\<lambda>_ s.
     then_do (require_api_key env 0 s) (\<lambda>_ s.
     then_do (narrate env 3
                (''Recording mode. Ask your follow-up question after the beep. '' @
                 ''Press control plus N again to send immediately.'') False s) (\<lambda>_ s.
     then_do (check_cancel (Some ''Follow-up canceled.'') (arrive env 1 s)) (\<lambda>_ s.
       (case record_follow_up_question 30 3 (dictation env)
               (emit [AudioCue ''SystemExclamation'']
                  ((emit [Printed ''Follow-up recording started. Speak now, then press Ctrl+N to send.''] s)
                     \<lparr>follow_up_submit_event := False, follow_up_listening_event := True\<rparr>)) of
          (heard, s) \<Rightarrow>
            follow_up_after_recording env heard
              (emit [AudioCue ''SystemAsterisk''] (s\<lparr>follow_up_listening_event := False\<rparr>)))))))"

text \<open>\<^verbatim>\<open>_handle_follow_up_query\<close>: the \<^verbatim>\<open>try\<close> block, then its \<^verbatim>\<open>finally\<close>.\<close>

definition handle_follow_up_query :: "task_env \<Rightarrow> assistant \<Rightarrow> assistant" where
  "handle_follow_up_query env s0 =
     (case follow_up_try env s0 of
        (r, s) \<Rightarrow>
          thread_end r
            (release (set_active_task None
               (s\<lparr>follow_up_listening_event := False, follow_up_submit_event := False\<rparr>))))"

text \<open>The \<^verbatim>\<open>try\<close> block of \<^verbatim>\<open>_navigate_detail\<close>.\<close>

definition navigate_try :: "int \<Rightarrow> task_env \<Rightarrow> assistant \<Rightarrow> unit step \<times> assistant" where
  "navigate_try step env s0 =
     (case navigate_cursor step (details (arrive env 0 s0)) of
        (Inl err, c) \<Rightarrow> (Throw err, (arrive env 0 s0)\<lparr>details := c\<rparr>)
      | (Inr message, c) \<Rightarrow>
          narrate env 0 message False
            (arrive env 1 (emit [Printed message] ((arrive env 0 s0)\<lparr>details := c\<rparr>))))"

text \<open>\<^verbatim>\<open>_navigate_detail\<close>: the \<^verbatim>\<open>try\<close> block, then its \<^verbatim>\<open>finally\<close>.\<close>

definition navigate_detail :: "int \<Rightarrow> task_env \<Rightarrow> assistant \<Rightarrow> assistant" where
  "navigate_detail step env s0 =
     (case navigate_try step env s0 of (r, s) \<Rightarrow> thread_end r (release s))"

fun run_task :: "task \<Rightarrow> task_env \<Rightarrow> assistant \<Rightarrow> assistant" where
  "run_task CaptureTask env s = capture_and_describe env s"
| "run_task FollowUpTask env s = handle_follow_up_query env s"
| "run_task (NavigateTask step) env s = navigate_detail step env s"

subsection \<open>Runs of the program\<close>

text \<open>
  A run is a sequence of actions from the state that \<^verbatim>\<open>__init__\<close> leaves: a hotkey is
  handled, or the oldest thread that was started and has not run yet runs its body to
  the end (the hotkeys handled meanwhile are in the body's environment). A handler is
  one step. A gated handler that stops the speech, waits for the gate and is admitted
  after the running body has ended acts on the shared state as the stop-speaking key
  during that body followed by the handler itself after it. Shutdown ends the process
  and is not an action of a run.
\<close>

datatype action = Key hotkey | Body task_env

fun act :: "action \<Rightarrow> assistant \<Rightarrow> assistant" where
  "act (Key h) s = press h s"
| "act (Body env) s =
     (case threads s of [] \<Rightarrow> s | t # ts \<Rightarrow> run_task t env (s\<lparr>threads := ts\<rparr>))"

definition run :: "action list \<Rightarrow> assistant \<Rightarrow> assistant" where
  "run acts s = foldl (\<lambda>s a. act a s) s acts"

section \<open>Notions the properties are stated with\<close>

subsection \<open>Sessions in a run\<close>

text \<open>
  A task session begins when a handler starts the task's thread and ends when the body
  releases the gate. \<open>sessions_live\<close> counts the sessions that have begun and not ended;
  \<open>single_flight\<close> says that the count never exceeded one, at any moment of the run.
\<close>

fun session_change :: "effect \<Rightarrow> int" where
  "session_change (ThreadStarted t) = 1"
| "session_change GateReleased = - 1"
| "session_change _ = 0"

definition sessions_live :: "effect list \<Rightarrow> int" where
  "sessions_live effs = sum_list (map session_change effs)"

definition single_flight :: "effect list \<Rightarrow> bool" where
  "single_flight effs \<longleftrightarrow> (\<forall>n \<le> length effs. sessions_live (take n effs) \<le> 1)"

text \<open>The same bound, checked forwards from a count \<open>k\<close>.\<close>

fun gate_run :: "int \<Rightarrow> effect list \<Rightarrow> bool" where
  "gate_run k [] = True"
| "gate_run k (e # es) = (k + session_change e \<le> 1 \<and> gate_run (k + session_change e) es)"

subsection \<open>Polls of the cancellation token in a run\<close>

text \<open>
  \<open>polls_agree tok effs\<close> follows the token through a run that starts with the token at
  \<open>tok\<close>: a cancel request sets it, the admission of a capture or follow-up task clears
  it, the admission of a navigation task leaves it, and every poll must read it as it
  then is. \<open>token_after\<close> is the token at the end.
\<close>

fun token_change :: "bool \<Rightarrow> effect \<Rightarrow> bool" where
  "token_change tok CancelRequested = True"
| "token_change tok (ThreadStarted CaptureTask) = False"
| "token_change tok (ThreadStarted FollowUpTask) = False"
| "token_change tok _ = tok"

fun poll_agrees :: "bool \<Rightarrow> effect \<Rightarrow> bool" where
  "poll_agrees tok (CancelPolled b) = (b = tok)"
| "poll_agrees tok _ = True"

fun polls_agree :: "bool \<Rightarrow> effect list \<Rightarrow> bool" where
  "polls_agree tok [] = True"
| "polls_agree tok (e # es) = (poll_agrees tok e \<and> polls_agree (token_change tok e) es)"

fun token_after :: "bool \<Rightarrow> effect list \<Rightarrow> bool" where
  "token_after tok [] = tok"
| "token_after tok (e # es) = token_after (token_change tok e) es"

subsection \<open>What a task body can do to the shared state\<close>

text \<open>
  The effects a body adds between two polls: cues, prints and narrations.
\<close>

fun quiet_effect :: "effect \<Rightarrow> bool" where
  "quiet_effect (Beeps p) = True"
| "quiet_effect (AudioCue a) = True"
| "quiet_effect (Printed m) = True"
| "quiet_effect (Narration text evs) = True"
| "quiet_effect _ = False"

text \<open>
  \<open>body_reach s s'\<close>: \<open>s'\<close> comes from \<open>s\<close> by steps of a \<^verbatim>\<open>try\<close> block and its
  \<^verbatim>\<open>finally\<close> short of the release, interleaved with hotkeys.
\<close>

inductive body_reach :: "assistant \<Rightarrow> assistant \<Rightarrow> bool" where
  here: "body_reach s s"
| pressed: "body_reach s s' \<Longrightarrow> body_reach s (press h s')"
| polled: "body_reach s s' \<Longrightarrow> body_reach s (snd (poll_cancel s'))"
| emitted: "body_reach s s' \<Longrightarrow> list_all quiet_effect effs \<Longrightarrow> body_reach s (emit effs s')"
| stored: "body_reach s s' \<Longrightarrow> body_reach s (s'\<lparr>details := c\<rparr>)"
| keyed: "body_reach s s' \<Longrightarrow> body_reach s (s'\<lparr>api_key := k\<rparr>)"
| listens: "body_reach s s' \<Longrightarrow> body_reach s (s'\<lparr>follow_up_listening_event := b\<rparr>)"
| submits: "body_reach s s' \<Longrightarrow> body_reach s (s'\<lparr>follow_up_submit_event := b\<rparr>)"
| named: "body_reach s s' \<Longrightarrow> body_reach s (s'\<lparr>active_task_name := n\<rparr>)"

text \<open>A state in which a session holds the gate, and the states between two actions of a run.\<close>

definition in_session :: "assistant \<Rightarrow> bool" where
  "in_session s \<longleftrightarrow>
     capture_lock s \<and> single_flight (effects s) \<and> sessions_live (effects s) = 1"

definition gate_inv :: "assistant \<Rightarrow> bool" where
  "gate_inv s \<longleftrightarrow>
     single_flight (effects s) \<and>
     (if capture_lock s then (\<exists>t. threads s = [t]) \<and> sessions_live (effects s) = 1
      else threads s = [] \<and> sessions_live (effects s) = 0)"

definition token_inv :: "assistant \<Rightarrow> bool" where
  "token_inv s \<longleftrightarrow>
     polls_agree False (effects s) \<and> token_after False (effects s) = task_cancel_event s"

subsection \<open>What was narrated\<close>

text \<open>The texts of the \<^verbatim>\<open>speak\<close> calls of a run that some backend spoke to the end.\<close>

fun spoken :: "effect list \<Rightarrow> string list" where
  "spoken [] = []"
| "spoken (Narration text evs # es) =
     (if list_ex is_audible evs then text # spoken es else spoken es)"
| "spoken (e # es) = spoken es"

subsection \<open>The polls of a dictation pass\<close>

text \<open>
  The state at the first polls of a pass and at the polls after its attempt, and the
  transcript its attempt returns.
\<close>

definition before_attempt :: "iteration \<Rightarrow> assistant \<Rightarrow> assistant" where
  "before_attempt it s = handle_all (pressed_before it) s"

definition after_attempt :: "iteration \<Rightarrow> assistant \<Rightarrow> assistant" where
  "after_attempt it s = handle_all (pressed_during it) (snd (poll_cancel (before_attempt it s)))"

definition heard_chunk :: "int \<Rightarrow> int \<Rightarrow> iteration \<Rightarrow> string option" where
  "heard_chunk max_record_seconds chunk_seconds it =
     transcript (transcribe_from_microphone
       (max 1 (min chunk_seconds (max_record_seconds - trunc_seconds (elapsed_at_remaining it))))
       (Some (cancel_seen it)) (Some (submit_seen it)) (attempt it))"

section \<open>Sample environments\<close>

text \<open>A speech environment in which nothing stops the narration and every backend works.\<close>

definition clear_speech :: speech_env where
  "clear_speech =
     \<lparr>stop_set = (\<lambda>p. False), active_proc = False, wave_tempfile = (\<lambda>i. None),
      wave_synthesis = (\<lambda>i. Exited 0), wave_playback = (\<lambda>i. None),
      cscript_run = (\<lambda>i. Exited 0), powershell_run = (\<lambda>i. Exited 0),
      pyttsx3_run = (\<lambda>i. None)\<rparr>"

text \<open>
  Backends 1 to 3 exit with code 1; the in-process engine raises, or works.
\<close>

definition failing_speech :: "py_error option \<Rightarrow> speech_env" where
  "failing_speech engine =
     clear_speech\<lparr>wave_synthesis := (\<lambda>i. Exited 1), cscript_run := (\<lambda>i. Exited 1),
                   powershell_run := (\<lambda>i. Exited 1), pyttsx3_run := (\<lambda>i. engine)\<rparr>"

text \<open>A task environment with no hotkey pressed meanwhile and a model that answers.\<close>

definition quiet_env :: "string \<Rightarrow> task_env" where
  "quiet_env response =
     \<lparr>arrivals = (\<lambda>k. []), speech = (\<lambda>k. clear_speech), prompt_result = None,
      save_key_fails = False, screenshot_error = None, model_response = response,
      dictation = []\<rparr>"

text \<open>A transcription process that hears the given words after one second, and one that hangs.\<close>

definition hearing :: "string \<Rightarrow> attempt_env" where
  "hearing words =
     \<lparr>popen_raises = None, started_at = 0, exits_at = Some 1000, returncode = 0,
      stdout_text = words, sleep_extra = (\<lambda>t. 0)\<rparr>"

definition hanging :: attempt_env where
  "hanging = (hearing [])\<lparr>exits_at := None\<rparr>"

text \<open>A pass of the dictation loop, by its elapsed time, its attempt and the hotkeys during it.\<close>

definition pass :: "int \<Rightarrow> attempt_env \<Rightarrow> hotkey list \<Rightarrow> iteration" where
  "pass elapsed a keys =
     \<lparr>elapsed_at_test = elapsed, pressed_before = [], elapsed_at_remaining = elapsed,
      cancel_seen = (\<lambda>t. False), submit_seen = (\<lambda>t. False), attempt = a,
      pressed_during = keys\<rparr>"

text \<open>The section list of the spec's cursor example, loaded from a three-sentence text.\<close>

definition abc_cursor :: cursor where
  "abc_cursor = store_description_details ''a. b. c.'' initial_cursor"

text \<open>
  The end-to-end run: a capture whose model answers with three sentences, then \<open>n\<close>
  presses of the next-detail key, each followed by the body of its thread.
\<close>

definition three_parts :: string where
  "three_parts = ''First part. Second part. Third part.''"

definition sample_run :: "nat \<Rightarrow> action list" where
  "sample_run n =
     [Key Capture, Body (quiet_env three_parts)] @
     concat (replicate n [Key NextDetail, Body (quiet_env [])])"

text \<open>A speech environment in which exactly one poll reads the suppression signal as set.\<close>

definition stopped_at :: "poll_point \<Rightarrow> speech_env" where
  "stopped_at q = clear_speech\<lparr>stop_set := (\<lambda>p. p = q)\<rparr>"

text \<open>
  A follow-up whose user says a few words and presses the follow-up key again during the
  second attempt, which the submit signal then ends.
\<close>

definition toggle_env :: task_env where
  "toggle_env =
     (quiet_env ''A settings window.'')
       \<lparr>dictation :=
          [pass 0 (hearing ''what is this'') [],
           (pass 3000 hanging [FollowUp])\<lparr>submit_seen := (\<lambda>t. 500 \<le> t)\<rparr>]\<rparr>"

text \<open>The state right after the capture key was pressed at start-up.\<close>

definition busy :: assistant where
  "busy = press Capture (initial_assistant (Some ''key''))"

text \<open>A capture during which the cancel key is pressed while the screenshot is taken.\<close>

definition cancel_mid_env :: task_env where
  "cancel_mid_env =
     (quiet_env three_parts)\<lparr>arrivals := (\<lambda>k. if k = 2 then [CancelTask] else [])\<rparr>"

text \<open>
  A capture during which the stop-speaking key is pressed while \<^verbatim>\<open>Summary is ready.\<close> is
  spoken.
\<close>

definition stop_mid_env :: task_env where
  "stop_mid_env =
     (quiet_env three_parts)\<lparr>arrivals := (\<lambda>k. if k = 5 then [StopSpeaking] else [])\<rparr>"

text \<open>A state in which the follow-up task holds the gate and listens.\<close>

definition recording :: assistant where
  "recording =
     (press FollowUp (initial_assistant (Some ''key'')))
       \<lparr>threads := [], follow_up_listening_event := True\<rparr>"

text \<open>
  Passes of the dictation loop during or before which a key is pressed: the cancel key
  and the follow-up key make the running attempt see its event after half a second.
\<close>

definition submit_before :: iteration where
  "submit_before = (pass 3000 hanging [])\<lparr>pressed_before := [FollowUp]\<rparr>"

definition submit_during :: iteration where
  "submit_during = (pass 3000 hanging [FollowUp])\<lparr>submit_seen := (\<lambda>t. 500 \<le> t)\<rparr>"

definition cancel_before :: iteration where
  "cancel_before = (pass 3000 hanging [])\<lparr>pressed_before := [CancelTask]\<rparr>"

definition cancel_during :: iteration where
  "cancel_during = (pass 3000 hanging [CancelTask])\<lparr>cancel_seen := (\<lambda>t. 500 \<le> t)\<rparr>"

text \<open>
  A dictation that is canceled during its first attempt, one in which nothing is heard
  until the thirty seconds are over, and one that is canceled after a chunk was heard.
\<close>

definition canceled_passes :: "iteration list" where
  "canceled_passes = [cancel_during\<lparr>elapsed_at_test := 0, elapsed_at_remaining := 0\<rparr>]"

definition silent_passes :: "iteration list" where
  "silent_passes =
     [pass 0 (hearing []) [], pass 15000 (hearing []) [], pass 30000 (hearing []) []]"

definition cancel_after_chunk :: "iteration list" where
  "cancel_after_chunk = [pass 0 (hearing ''what is this'') [], cancel_during]"

section \<open>Verified properties\<close>

subsection \<open>The detail cursor and the segmentation\<close>

lemma abc_cursor_value:
  "abc_cursor = \<lparr>description_sections = [''a.'', ''b.'', ''c.''], current_detail_index = - 1\<rparr>"
  by code_simp

text \<open>
  C8. For a loaded cursor (some section exists, the index is \<open>-1\<close> or a position): from
  index \<open>-1\<close> a forward step selects the first section and a backward step the last one;
  from any other index a forward step moves to the next section and stays on the last
  one, a backward step moves to the previous section and stays on the first one. The new
  index is a position of the unchanged section list, the step raises nothing and its
  message reads the section at the new index, and the cursor stays loaded. Storing a
  description always yields a loaded cursor with index \<open>-1\<close>.
\<close>

theorem detail_cursor_stepping:
  assumes "cursor_loaded s"
  shows "(case navigate_cursor step s of (r, s') \<Rightarrow>
            (current_detail_index s = - 1 \<and> step > 0 \<longrightarrow> current_detail_index s' = 0) \<and>
            (current_detail_index s = - 1 \<and> step < 0 \<longrightarrow>
               current_detail_index s' = int (length (description_sections s)) - 1) \<and>
            (current_detail_index s \<noteq> - 1 \<and> step > 0 \<longrightarrow>
               current_detail_index s' =
                 min (current_detail_index s + 1) (int (length (description_sections s)) - 1)) \<and>
            (current_detail_index s \<noteq> - 1 \<and> step < 0 \<longrightarrow>
               current_detail_index s' = max (current_detail_index s - 1) 0) \<and>
            0 \<le> current_detail_index s' \<and>
            current_detail_index s' < int (length (description_sections s)) \<and>
            description_sections s' = description_sections s \<and>
            r = Inr (detail_message (current_detail_index s') (description_sections s)
                       (description_sections s ! nat (current_detail_index s'))) \<and>
            cursor_loaded s') \<and>
         cursor_loaded (store_description_details d s0) \<and>
         current_detail_index (store_description_details d s0) = - 1"
  using assms
  by (auto simp: cursor_loaded_def store_description_details_def navigate_cursor_def
        py_index_def Let_def)

theorem detail_cursor_stepping_witness:
  "cursor_loaded abc_cursor \<and>
   current_detail_index (snd (navigate_cursor (- 1) abc_cursor)) = 2 \<and>
   fst (navigate_cursor (- 1) abc_cursor) = Inr ''Detail 3 of 3. c.''"
proof -
  have loaded: "cursor_loaded abc_cursor"
    by (simp add: abc_cursor_value cursor_loaded_def)
  have len: "description_sections abc_cursor = [''a.'', ''b.'', ''c.'']"
    and idx: "current_detail_index abc_cursor = - 1"
    by (simp_all add: abc_cursor_value)
  have msg: "detail_message 2 [''a.'', ''b.'', ''c.''] ''c.'' = ''Detail 3 of 3. c.''"
    by code_simp
  show ?thesis
    using detail_cursor_stepping[OF loaded, of "- 1"] loaded len idx msg
    by (simp add: case_prod_beta)
qed

text \<open>
  C9. When the model answers \<^verbatim>\<open>First part. Second part. Third part.\<close>, the capture task
  stores three sections, one per sentence, with index \<open>-1\<close>; the summary is the first two
  sentences joined by a space, and it is narrated after the word \<^verbatim>\<open>Summary.\<close>; the next
  three presses of the next-detail key read sections 1, 2 and 3, and further presses read
  section 3 again.
\<close>

theorem end_to_end_segmentation:
  "details (run (sample_run 0) (initial_assistant (Some ''key''))) =
     \<lparr>description_sections = [''First part.'', ''Second part.'', ''Third part.''],
      current_detail_index = - 1\<rparr> \<and>
   build_summary three_parts = ''First part. Second part.'' \<and>
   spoken (effects (run (sample_run 5) (initial_assistant (Some ''key'')))) =
     [''Summary is ready.'',
      ''Summary. First part. Second part.'',
      ''Press control plus right arrow for next detail. Press control plus left arrow for previous detail.'',
      ''Detail 1 of 3. First part.'',
      ''Detail 2 of 3. Second part.'',
      ''Detail 3 of 3. Third part.'',
      ''Detail 3 of 3. Third part.'',
      ''Detail 3 of 3. Third part.''] \<and>
   map (\<lambda>n. current_detail_index (details (run (sample_run n) (initial_assistant (Some ''key'')))))
     [1, 2, 3, 4, 5] = [0, 1, 2, 2, 2]"
  by code_simp

subsection \<open>The speech pipeline\<close>

lemma speak_iterations_cut:
  "stop_set e (LoopTop (i + k)) \<Longrightarrow>
   speak_iterations e u i (k + m) = speak_iterations e u i k"
proof (induction k arbitrary: i)
  case 0
  then show ?case by (cases m) (simp_all add: speak_iteration_def)
next
  case (Suc k)
  from Suc.prems have "stop_set e (LoopTop (Suc i + k))" by simp
  from Suc.IH[OF this] show ?case by (simp split: prod.splits flow.splits)
qed

lemma wave_attempt_index:
  "Attempt j b \<in> set (fst (snd (speak_via_wave_file e i u))) \<Longrightarrow> j = i"
  by (auto simp: speak_via_wave_file_def split: if_splits option.splits proc_result.splits)

lemma cscript_attempt_index:
  "Attempt j b \<in> set (fst (snd (speak_via_cscript e i u))) \<Longrightarrow> j = i"
  by (auto simp: speak_via_cscript_def split: if_splits proc_result.splits)

lemma pyttsx3_attempt_index:
  "Attempt j b \<in> set (fst (speak_via_pyttsx3 e i u)) \<Longrightarrow> j = i"
  by (auto simp: speak_via_pyttsx3_def split: if_splits option.splits)

lemma powershell_attempt_index:
  "Attempt j b \<in> set (fst (speak_via_powershell e i u)) \<Longrightarrow> j = i"
  using pyttsx3_attempt_index[of j b e i u]
  by (auto simp: speak_via_powershell_def split: if_splits proc_result.splits prod.splits)

lemma speak_iteration_attempt_index:
  assumes "Attempt j b \<in> set (fst (snd (speak_iteration e u i)))"
  shows "j = i \<and> \<not> stop_set e (LoopTop i)"
proof -
  obtain ok1 evs1 x1 where w: "speak_via_wave_file e i u = (ok1, evs1, x1)"
    by (cases "speak_via_wave_file e i u") auto
  obtain ok2 evs2 x2 where c: "speak_via_cscript e i u = (ok2, evs2, x2)"
    by (cases "speak_via_cscript e i u") auto
  obtain evs3 x3 where p: "speak_via_powershell e i u = (evs3, x3)"
    by (cases "speak_via_powershell e i u") auto
  have 1: "Attempt j b \<in> set evs1 \<Longrightarrow> j = i"
    using wave_attempt_index[of j b e i u] w by simp
  have 2: "Attempt j b \<in> set evs2 \<Longrightarrow> j = i"
    using cscript_attempt_index[of j b e i u] c by simp
  have 3: "Attempt j b \<in> set evs3 \<Longrightarrow> j = i"
    using powershell_attempt_index[of j b e i u] p by simp
  from assms w c p 1 2 3 show ?thesis
    by (auto simp: speak_iteration_def split: if_splits option.splits bool.splits)
qed

lemma speak_iterations_attempt_bounds:
  "Attempt j b \<in> set (fst (speak_iterations e u i n)) \<Longrightarrow>
   i \<le> j \<and> (\<forall>k. i \<le> k \<and> k \<le> j \<longrightarrow> \<not> stop_set e (LoopTop k))"
proof (induction n arbitrary: i)
  case 0
  then show ?case by simp
next
  case (Suc n)
  obtain f evs exc where it: "speak_iteration e u i = (f, evs, exc)"
    by (cases "speak_iteration e u i") auto
  obtain evs' exc' where rest: "speak_iterations e u (Suc i) n = (evs', exc')"
    by (cases "speak_iterations e u (Suc i) n") auto
  from Suc.prems it rest have "Attempt j b \<in> set evs \<or> Attempt j b \<in> set evs'"
    by (cases f) auto
  then show ?case
  proof
    assume "Attempt j b \<in> set evs"
    with it speak_iteration_attempt_index[of j b e u i] show ?thesis
      by (auto simp: le_antisym)
  next
    assume a: "Attempt j b \<in> set evs'"
    with rest Suc.IH[of "Suc i"]
    have ih: "Suc i \<le> j" "\<forall>k. Suc i \<le> k \<and> k \<le> j \<longrightarrow> \<not> stop_set e (LoopTop k)"
      by auto
    have nostop: "\<not> stop_set e (LoopTop i)"
    proof
      assume "stop_set e (LoopTop i)"
      then have "speak_iteration e u i = (Break, [], None)" by (simp add: speak_iteration_def)
      with Suc.prems show False by simp
    qed
    show ?thesis
    proof (intro conjI allI impI)
      show "i \<le> j" using ih(1) by simp
    next
      fix k assume "i \<le> k \<and> k \<le> j"
      then show "\<not> stop_set e (LoopTop k)" using ih(2) nostop by (cases "k = i") auto
    qed
  qed
qed

text \<open>
  C4. A \<^verbatim>\<open>speak\<close> call that reads the suppression signal as set on entry returns at once:
  it logs the suppression, attempts no backend and raises nothing. When the check at the
  top of repeat iteration \<open>k\<close> reads the signal as set, no backend is attempted in
  iteration \<open>k\<close> or any later one, and the loop does exactly what it would do with \<open>k\<close>
  repeats: the remaining repeats are dropped.
\<close>

theorem speak_suppression:
  "(stop_set e AtEntry \<longrightarrow> speak e u interrupt repeat = ([Suppressed], None)) \<and>
   (stop_set e (LoopTop k) \<longrightarrow>
      (\<forall>j b. k \<le> j \<longrightarrow> Attempt j b \<notin> set (fst (speak e u interrupt repeat))) \<and>
      speak_iterations e u 0 (k + m) = speak_iterations e u 0 k)"
proof (intro conjI impI allI)
  assume "stop_set e AtEntry"
  then show "speak e u interrupt repeat = ([Suppressed], None)" by (simp add: speak_def)
next
  fix j b
  assume st: "stop_set e (LoopTop k)" and kj: "k \<le> j"
  show "Attempt j b \<notin> set (fst (speak e u interrupt repeat))"
  proof
    assume a: "Attempt j b \<in> set (fst (speak e u interrupt repeat))"
    then have "Attempt j b \<in> set (fst (speak_iterations e u 0 (nat (max 1 repeat))))"
      by (auto simp: speak_def split: if_splits prod.splits)
    from speak_iterations_attempt_bounds[OF this] st kj show False by auto
  qed
next
  assume "stop_set e (LoopTop k)"
  then show "speak_iterations e u 0 (k + m) = speak_iterations e u 0 k"
    using speak_iterations_cut[of e 0 k u m] by simp
qed

theorem speak_suppression_witness:
  "stop_set (stopped_at AtEntry) AtEntry \<and>
   speak (stopped_at AtEntry) ''hello'' False 3 = ([Suppressed], None) \<and>
   stop_set (stopped_at (LoopTop 1)) (LoopTop 1) \<and>
   Attempt 1 WaveFile \<notin> set (fst (speak (stopped_at (LoopTop 1)) ''hello'' False 3)) \<and>
   speak_iterations (stopped_at (LoopTop 1)) ''hello'' 0 (1 + 2) =
     ([Attempt 0 WaveFile, Audible WaveFile ''hello''], None)"
proof -
  have a: "stop_set (stopped_at AtEntry) AtEntry"
    and b: "stop_set (stopped_at (LoopTop 1)) (LoopTop 1)"
    by (simp_all add: stopped_at_def)
  have one: "speak_iterations (stopped_at (LoopTop 1)) ''hello'' 0 1 =
      ([Attempt 0 WaveFile, Audible WaveFile ''hello''], None)"
    by (simp add: stopped_at_def clear_speech_def speak_iteration_def speak_via_wave_file_def)
  have first: "speak (stopped_at AtEntry) ''hello'' False 3 = ([Suppressed], None)"
    using speak_suppression[of "stopped_at AtEntry" "''hello''" False 3 0 0] a by blast
  have later: "Attempt 1 WaveFile \<notin> set (fst (speak (stopped_at (LoopTop 1)) ''hello'' False 3))"
    and cut: "speak_iterations (stopped_at (LoopTop 1)) ''hello'' 0 (1 + 2) =
      speak_iterations (stopped_at (LoopTop 1)) ''hello'' 0 1"
    using speak_suppression[of "stopped_at (LoopTop 1)" "''hello''" False 3 1 2] b by blast+
  show ?thesis
    using a b first later cut one by (simp only: simp_thms)
qed

text \<open>
  The fallback order on exit codes: in an iteration in which nothing sets the suppression
  signal, backends 1 to 3 exit with a non-zero code and the in-process engine works, the
  four backends are attempted in their order, each failure is logged, and the engine
  speaks the text once.
\<close>

lemma fallback_order_on_exit_codes:
  assumes "\<forall>p. \<not> stop_set e p" and "wave_tempfile e i = None"
    and "wave_synthesis e i = Exited r1" and "r1 \<noteq> 0"
    and "cscript_run e i = Exited r2" and "r2 \<noteq> 0"
    and "powershell_run e i = Exited r3" and "r3 \<noteq> 0"
    and "pyttsx3_run e i = None"
  shows "speak_iteration e u i =
    (Continue,
     [Attempt i WaveFile, LoggedFailure WaveFile, Attempt i Cscript, LoggedFailure Cscript,
      Attempt i PowerShell, LoggedFailure PowerShell, Attempt i Pyttsx3, Audible Pyttsx3 u],
     None)"
  using assms
  by (simp add: speak_iteration_def speak_via_wave_file_def speak_via_cscript_def
        speak_via_powershell_def speak_via_pyttsx3_def)

lemma engine_once_per_iteration:
  "length (filter (\<lambda>ev. \<exists>j. ev = Attempt j Pyttsx3)
     (fst (speak_iterations (failing_speech None) u i n))) = n"
proof (induction n arbitrary: i)
  case 0
  then show ?case by simp
next
  case (Suc n)
  have it: "speak_iteration (failing_speech None) u i =
    (Continue,
     [Attempt i WaveFile, LoggedFailure WaveFile, Attempt i Cscript, LoggedFailure Cscript,
      Attempt i PowerShell, LoggedFailure PowerShell, Attempt i Pyttsx3, Audible Pyttsx3 u],
     None)"
    by (rule fallback_order_on_exit_codes[where ?r1.0 = 1 and ?r2.0 = 1 and ?r3.0 = 1])
       (simp_all add: failing_speech_def clear_speech_def)
  show ?case using Suc.IH[of "Suc i"] it by (simp add: case_prod_beta)
qed

text \<open>
  C3, at the failing inputs. With backends 1 to 3 exiting with a non-zero code and the
  in-process engine raising, one \<^verbatim>\<open>speak\<close> call tries the four backends in order, once
  each, and then raises the engine's exception to its caller. With the wave backend
  failing and the \<^verbatim>\<open>Popen\<close> of the script backend raising, the call raises at backend 2
  and backends 3 and 4 are never tried.
\<close>

theorem speak_raises_when_backends_fail:
  "speak (failing_speech (Some RuntimeError)) ''hello'' False 1 =
     ([Attempt 0 WaveFile, LoggedFailure WaveFile, Attempt 0 Cscript, LoggedFailure Cscript,
       Attempt 0 PowerShell, LoggedFailure PowerShell, Attempt 0 Pyttsx3],
      Some RuntimeError) \<and>
   speak ((failing_speech None)\<lparr>cscript_run := (\<lambda>i. Raises OSError)\<rparr>) ''hello'' False 1 =
     ([Attempt 0 WaveFile, LoggedFailure WaveFile, Attempt 0 Cscript], Some OSError)"
  by (simp add: speak_def failing_speech_def clear_speech_def speak_iteration_def
        speak_via_wave_file_def speak_via_cscript_def speak_via_powershell_def
        speak_via_pyttsx3_def)

subsection \<open>The transcription watchdog\<close>





subsection \<open>What a task body does to the shared state\<close>

lemma emit_fields [simp]:
  "capture_lock (emit effs s) = capture_lock s"
  "task_cancel_event (emit effs s) = task_cancel_event s"
  "active_task_name (emit effs s) = active_task_name s"
  "follow_up_listening_event (emit effs s) = follow_up_listening_event s"
  "follow_up_submit_event (emit effs s) = follow_up_submit_event s"
  "details (emit effs s) = details s"
  "speech_stop_event (emit effs s) = speech_stop_event s"
  "api_key (emit effs s) = api_key s"
  "threads (emit effs s) = threads s"
  "effects (emit effs s) = effects s @ effs"
  by (simp_all add: emit_def)

lemmas handler_defs =
  on_capture_hotkey_def on_follow_up_hotkey_def on_stop_speaking_hotkey_def
  on_cancel_task_hotkey_def on_set_api_key_hotkey_def on_next_detail_hotkey_def
  on_previous_detail_hotkey_def on_detail_hotkey_def stop_current_speech_def
  clear_speech_stop_request_def set_active_task_def start_thread_def deny_def Let_def

lemma reach_handle_all: "body_reach s s' \<Longrightarrow> body_reach s (handle_all hs s')"
  unfolding handle_all_def
  by (induction hs arbitrary: s') (auto intro: body_reach.pressed)

lemma reach_arrive: "body_reach s s' \<Longrightarrow> body_reach s (arrive env k s')"
  by (simp add: arrive_def reach_handle_all)

lemma reach_emit:
  "body_reach s s' \<Longrightarrow> list_all quiet_effect effs \<Longrightarrow> body_reach s (emit effs s')"
  by (rule body_reach.emitted)

lemma reach_poll: "body_reach s s' \<Longrightarrow> poll_cancel s' = (b, s'') \<Longrightarrow> body_reach s s''"
  using body_reach.polled[of s s'] by simp

lemma reach_then_do:
  assumes "body_reach s (snd m)"
    and "\<And>a s'. body_reach s s' \<Longrightarrow> body_reach s (snd (f a s'))"
  shows "body_reach s (snd (then_do m f))"
proof (cases m)
  case (Pair r s')
  with assms show ?thesis by (cases r) auto
qed

lemma reach_check_cancel:
  assumes "body_reach s s'"
  shows "body_reach s (snd (check_cancel m s'))"
proof -
  let ?p = "snd (poll_cancel s')"
  have p: "body_reach s ?p" using assms by (rule body_reach.polled)
  have "snd (check_cancel m s') = ?p \<or> (\<exists>x. snd (check_cancel m s') = emit [Printed x] ?p)"
    by (auto simp: check_cancel_def poll_cancel_def split: option.splits bool.splits)
  then show ?thesis using p by (auto intro!: body_reach.emitted)
qed

lemma reach_say: "body_reach s s' \<Longrightarrow> body_reach s (snd (say env k u i s'))"
  by (auto simp: say_def Let_def split: prod.splits intro!: body_reach.emitted)

lemma reach_narrate: "body_reach s s' \<Longrightarrow> body_reach s (snd (narrate env k u i s'))"
  using reach_say[of s s' env k u i]
  by (auto simp: narrate_def split: prod.splits option.splits)

lemma reach_ensure:
  assumes "body_reach s s'"
  shows "body_reach s (snd (ensure_api_key_configured env k force s'))"
  unfolding ensure_api_key_configured_def
  using assms
  by (auto split: option.splits intro!: reach_then_do reach_narrate reach_emit body_reach.keyed)

lemma reach_require:
  assumes "body_reach s s'"
  shows "body_reach s (snd (require_api_key env k s'))"
  unfolding require_api_key_def
  using assms
  by (auto intro!: reach_then_do reach_narrate reach_emit reach_ensure)

lemma reach_capture_screenshot_bytes:
  assumes "body_reach s s'"
  shows "body_reach s (snd (capture_screenshot_bytes env k s'))"
  unfolding capture_screenshot_bytes_def
  using assms
  by (auto split: option.splits intro!: reach_then_do reach_narrate reach_emit)

lemma reach_keep_chunk: "body_reach s s' \<Longrightarrow> body_reach s (snd (keep_chunk c chunks s'))"
  by (auto simp: keep_chunk_def split: option.splits intro!: reach_emit)

lemma reach_record_pass:
  assumes "body_reach s s'"
  shows "body_reach s (snd (record_pass m c it chunks s'))"
proof -
  obtain b1 s1 where p1: "poll_cancel (handle_all (pressed_before it) s') = (b1, s1)"
    by (cases "poll_cancel (handle_all (pressed_before it) s')") auto
  obtain b2 s2 where p2: "poll_cancel (handle_all (pressed_during it) s1) = (b2, s2)"
    by (cases "poll_cancel (handle_all (pressed_during it) s1)") auto
  have r1: "body_reach s s1"
    using reach_poll[OF reach_handle_all[OF assms] p1] .
  have r2: "body_reach s s2"
    using reach_poll[OF reach_handle_all[OF r1] p2] .
  have r3: "body_reach s x2" if "keep_chunk ch chunks s2 = (x1, x2)" for ch x1 x2
    using reach_keep_chunk[OF r2, of ch chunks] that by simp
  show ?thesis
    using assms p1 p2 r1 r2 r3
    by (auto simp: record_pass_def Let_def split: prod.splits bool.splits)
qed

lemma reach_record_loop:
  "body_reach s s' \<Longrightarrow> body_reach s (snd (record_loop m c passes chunks s'))"
proof (induction passes arbitrary: chunks s')
  case Nil
  then show ?case by simp
next
  case (Cons it its)
  obtain r s1 where p: "record_pass m c it chunks s' = (r, s1)"
    by (cases "record_pass m c it chunks s'") auto
  have r1: "body_reach s s1" using reach_record_pass[OF Cons.prems, of m c it chunks] p by simp
  show ?case using p r1 Cons.IH[OF r1] by (cases r) auto
qed

lemma reach_capture_try: "body_reach s (snd (capture_try env s))"
  unfolding capture_try_def
  by (intro reach_then_do reach_check_cancel reach_arrive reach_require reach_capture_screenshot_bytes
        reach_narrate reach_emit body_reach.stored body_reach.here) simp_all

lemma reach_follow_up_after:
  "body_reach s s' \<Longrightarrow> body_reach s (snd (follow_up_after_recording env heard s'))"
  unfolding follow_up_after_recording_def
  by (auto split: option.splits
        intro!: reach_then_do reach_check_cancel reach_arrive reach_capture_screenshot_bytes
          reach_narrate reach_emit)

lemma reach_follow_up_try: "body_reach s (snd (follow_up_try env s))"
proof -
  have rec: "body_reach s (snd (follow_up_after_recording env
        (fst (record_follow_up_question 30 3 (dictation env) s1))
        (emit [AudioCue ''SystemAsterisk'']
          ((snd (record_follow_up_question 30 3 (dictation env) s1))
             \<lparr>follow_up_listening_event := False\<rparr>))))"
    if "body_reach s s1" for s1
    unfolding record_follow_up_question_def
    by (intro reach_follow_up_after reach_emit body_reach.listens reach_record_loop that) simp
  have tail: "body_reach s (snd (case record_follow_up_question 30 3 (dictation env) s1 of
          (heard, s2) \<Rightarrow> follow_up_after_recording env heard
              (emit [AudioCue ''SystemAsterisk''] (s2\<lparr>follow_up_listening_event := False\<rparr>))))"
    if "body_reach s s1" for s1
    using rec[OF that] by (simp add: case_prod_beta)
  show ?thesis
    unfolding follow_up_try_def
    by (intro reach_then_do reach_check_cancel reach_arrive reach_require reach_narrate tail
          reach_emit body_reach.listens body_reach.submits body_reach.here) simp_all
qed

lemma reach_navigate_try: "body_reach s (snd (navigate_try d env s))"
  unfolding navigate_try_def
  by (auto split: prod.splits sum.splits
        intro!: reach_narrate reach_arrive reach_emit body_reach.stored body_reach.here)

text \<open>
  Every body is its \<^verbatim>\<open>try\<close> block followed by the release: the state before the release
  is reached by body steps, and the release and the end of the thread follow.
\<close>

lemma run_task_shape:
  "\<exists>r s'. body_reach s s' \<and> run_task t env s = thread_end r (release s')"
proof (cases t)
  case CaptureTask
  have "body_reach s (set_active_task None (snd (capture_try env s)))"
    unfolding set_active_task_def by (intro body_reach.named reach_capture_try)
  then show ?thesis
    using CaptureTask by (auto simp: capture_and_describe_def case_prod_beta)
next
  case FollowUpTask
  have "body_reach s (set_active_task None
          ((snd (follow_up_try env s))
             \<lparr>follow_up_listening_event := False, follow_up_submit_event := False\<rparr>))"
    unfolding set_active_task_def
    by (intro body_reach.named body_reach.listens body_reach.submits reach_follow_up_try)
  then show ?thesis
    using FollowUpTask by (auto simp: handle_follow_up_query_def case_prod_beta)
next
  case (NavigateTask d)
  then show ?thesis
    using reach_navigate_try[of s d env]
    by (auto simp: navigate_detail_def case_prod_beta)
qed

subsection \<open>Single-flight admission\<close>

lemma sessions_live_simps [simp]:
  "sessions_live [] = 0"
  "sessions_live (e # es) = session_change e + sessions_live es"
  "sessions_live (xs @ ys) = sessions_live xs + sessions_live ys"
  by (simp_all add: sessions_live_def)

lemma gate_run_prefix:
  "gate_run k ys \<Longrightarrow> k \<le> 1 \<Longrightarrow> k + sessions_live (take n ys) \<le> 1"
proof (induction ys arbitrary: k n)
  case Nil
  then show ?case by simp
next
  case (Cons e es)
  show ?case
  proof (cases n)
    case 0
    then show ?thesis using Cons.prems by simp
  next
    case (Suc m)
    have "(k + session_change e) + sessions_live (take m es) \<le> 1"
      using Cons.prems by (intro Cons.IH) auto
    then show ?thesis using Suc by (simp add: add.assoc)
  qed
qed

lemma single_flight_extend:
  assumes "single_flight xs" and "sessions_live xs = k" and "gate_run k ys"
  shows "single_flight (xs @ ys)"
  unfolding single_flight_def
proof (intro allI impI)
  fix n assume n: "n \<le> length (xs @ ys)"
  have k: "k \<le> 1"
    using assms(1,2) unfolding single_flight_def by (auto dest!: spec[of _ "length xs"])
  show "sessions_live (take n (xs @ ys)) \<le> 1"
  proof (cases "n \<le> length xs")
    case True
    then show ?thesis using assms(1) by (simp add: single_flight_def)
  next
    case False
    then have "take n (xs @ ys) = xs @ take (n - length xs) ys" by simp
    then show ?thesis using gate_run_prefix[OF assms(3) k, of "n - length xs"] assms(2) by simp
  qed
qed

lemma quiet_change: "quiet_effect e \<Longrightarrow> session_change e = 0"
  by (cases e) simp_all

lemma gate_run_quiet: "list_all quiet_effect ys \<Longrightarrow> k \<le> 1 \<Longrightarrow> gate_run k ys"
  by (induction ys) (auto simp: quiet_change)

lemma sessions_live_quiet: "list_all quiet_effect ys \<Longrightarrow> sessions_live ys = 0"
  by (induction ys) (auto simp: quiet_change)

lemma in_session_emit:
  "in_session s \<Longrightarrow> list_all quiet_effect effs \<Longrightarrow> in_session (emit effs s)"
  by (auto simp: in_session_def sessions_live_quiet
        intro!: single_flight_extend[where k = 1] gate_run_quiet)

lemma in_session_press: "in_session s \<Longrightarrow> in_session (press h s)"
  by (cases h)
     (auto simp: handler_defs in_session_def split: option.splits
        intro!: single_flight_extend[where k = 1])

lemma press_threads_held: "capture_lock s \<Longrightarrow> threads (press h s) = threads s"
  by (cases h) (auto simp: handler_defs split: option.splits)

lemma press_lock_held: "capture_lock s \<Longrightarrow> capture_lock (press h s)"
  by (cases h) (auto simp: handler_defs split: option.splits)

lemma in_session_reach:
  "body_reach s s' \<Longrightarrow> in_session s \<Longrightarrow> in_session s' \<and> threads s' = threads s"
proof (induction rule: body_reach.induct)
  case (pressed s s' h)
  then show ?case
    using in_session_press[of s' h] press_threads_held[of s' h]
    by (simp add: in_session_def)
next
  case (emitted s s' effs)
  then show ?case by (auto intro!: in_session_emit)
next
  case (polled s s')
  then show ?case
    by (auto simp: poll_cancel_def in_session_def intro!: single_flight_extend[where k = 1])
qed (auto simp: in_session_def)

lemma gate_inv_press: "gate_inv s \<Longrightarrow> gate_inv (press h s)"
proof (cases "capture_lock s")
  case True
  assume g: "gate_inv s"
  with True have i: "in_session s" by (simp add: gate_inv_def in_session_def)
  have "in_session (press h s)" using i by (rule in_session_press)
  moreover have "threads (press h s) = threads s" using True by (rule press_threads_held)
  ultimately show ?thesis using g True by (auto simp: gate_inv_def in_session_def)
next
  case False
  assume g: "gate_inv s"
  then show ?thesis using False
    by (cases h)
       (auto simp: handler_defs gate_inv_def split: option.splits
          intro!: single_flight_extend[where k = 0])
qed

lemma gate_inv_task:
  assumes "in_session s" and "threads s = []"
  shows "gate_inv (run_task t env s)"
proof -
  obtain r s' where reach: "body_reach s s'" and shape: "run_task t env s = thread_end r (release s')"
    using run_task_shape[of s t env] by blast
  have i: "in_session s'" and th: "threads s' = []"
    using in_session_reach[OF reach assms(1)] assms(2) by simp_all
  then have "gate_inv (thread_end r (release s'))"
    by (cases r)
       (auto simp: thread_end_def release_def gate_inv_def in_session_def
          intro!: single_flight_extend[where k = 1])
  then show ?thesis by (simp add: shape)
qed

lemma gate_inv_act: "gate_inv s \<Longrightarrow> gate_inv (act a s)"
proof (cases a)
  case (Key h)
  assume "gate_inv s"
  then show ?thesis using Key by (simp add: gate_inv_press)
next
  case (Body env)
  assume g: "gate_inv s"
  show ?thesis
  proof (cases "threads s")
    case Nil
    then show ?thesis using g Body by simp
  next
    case (Cons t ts)
    with g have lock: "capture_lock s" and ts: "ts = []"
      by (auto simp: gate_inv_def split: if_splits)
    have "in_session (s\<lparr>threads := []\<rparr>)"
      using g lock by (simp add: gate_inv_def in_session_def)
    then have "gate_inv (run_task t env (s\<lparr>threads := []\<rparr>))"
      by (rule gate_inv_task) simp
    then show ?thesis using Body Cons ts by simp
  qed
qed

lemma gate_inv_run: "gate_inv s \<Longrightarrow> gate_inv (run acts s)"
  unfolding run_def
  by (induction acts arbitrary: s) (auto simp: gate_inv_act)

lemma gate_inv_initial: "gate_inv (initial_assistant key)"
  by (simp add: gate_inv_def initial_assistant_def single_flight_def)

lemma run_task_releases:
  "\<not> capture_lock (run_task t env s) \<and> GateReleased \<in> set (effects (run_task t env s))"
proof -
  obtain r s' where "run_task t env s = thread_end r (release s')"
    using run_task_shape[of s t env] by blast
  then show ?thesis by (cases r) (simp_all add: thread_end_def release_def)
qed

text \<open>
  C1, amended. In every run, from either start state, at most one task session is live
  at any moment. While a task holds the gate, every hotkey leaves the gate held and starts
  no thread; a capture or navigation trigger, and a follow-up trigger when no dictation
  is listening, stops the speech, prints the busy message and plays the rejection cue
  (420 Hz, 380 Hz). A follow-up trigger that finds the dictation listening is not denied:
  it sets the submit signal, cancels the running transcription and plays the submit cue.
  Every body, whatever its environment, ends with the gate released.
\<close>

theorem single_flight_admission:
  "single_flight (effects (run acts (initial_assistant key))) \<and>
   (capture_lock s \<longrightarrow>
      (\<forall>h. capture_lock (press h s) \<and> threads (press h s) = threads s) \<and>
      effects (press Capture s) = effects s @
        [SpeechStopped,
         Printed ''Capture already in progress. Press Ctrl+Shift+X to cancel it.'',
         Beeps [(420, 90), (380, 90)]] \<and>
      effects (press NextDetail s) = effects s @
        [SpeechStopped, Printed ''Action still in progress. Please try again.'',
         Beeps [(420, 90), (380, 90)]] \<and>
      effects (press PreviousDetail s) = effects s @
        [SpeechStopped, Printed ''Action still in progress. Please try again.'',
         Beeps [(420, 90), (380, 90)]] \<and>
      (\<not> follow_up_listening_event s \<longrightarrow>
         effects (press FollowUp s) = effects s @
           [SpeechStopped,
            Printed ''Capture already in progress. Press Ctrl+Shift+X to cancel it.'',
            Beeps [(420, 90), (380, 90)]]) \<and>
      (follow_up_listening_event s \<longrightarrow>
         effects (press FollowUp s) = effects s @
           [TranscriptionCanceled,
            Printed ''Stopping recording and sending your follow-up question...'',
            AudioCue ''SystemAsterisk''] \<and>
         follow_up_submit_event (press FollowUp s))) \<and>
   \<not> capture_lock (run_task t env s) \<and>
   GateReleased \<in> set (effects (run_task t env s))"
proof -
  have run: "single_flight (effects (run acts (initial_assistant key)))"
    using gate_inv_run[OF gate_inv_initial, of acts key] by (simp add: gate_inv_def)
  have held: "capture_lock (press h s) \<and> threads (press h s) = threads s"
    if "capture_lock s" for h
    using that by (simp add: press_lock_held press_threads_held)
  have denied: "capture_lock s \<longrightarrow>
      effects (press Capture s) = effects s @
        [SpeechStopped,
         Printed ''Capture already in progress. Press Ctrl+Shift+X to cancel it.'',
         Beeps [(420, 90), (380, 90)]] \<and>
      effects (press NextDetail s) = effects s @
        [SpeechStopped, Printed ''Action still in progress. Please try again.'',
         Beeps [(420, 90), (380, 90)]] \<and>
      effects (press PreviousDetail s) = effects s @
        [SpeechStopped, Printed ''Action still in progress. Please try again.'',
         Beeps [(420, 90), (380, 90)]] \<and>
      (\<not> follow_up_listening_event s \<longrightarrow>
         effects (press FollowUp s) = effects s @
           [SpeechStopped,
            Printed ''Capture already in progress. Press Ctrl+Shift+X to cancel it.'',
            Beeps [(420, 90), (380, 90)]]) \<and>
      (follow_up_listening_event s \<longrightarrow>
         effects (press FollowUp s) = effects s @
           [TranscriptionCanceled,
            Printed ''Stopping recording and sending your follow-up question...'',
            AudioCue ''SystemAsterisk''] \<and>
         follow_up_submit_event (press FollowUp s))"
    by (simp add: handler_defs)
  show ?thesis
    using run held denied run_task_releases[of t env s] by blast
qed

theorem single_flight_admission_witness:
  "single_flight (effects (run (sample_run 2) (initial_assistant (Some ''key'')))) \<and>
   capture_lock busy \<and>
   capture_lock (press NextDetail busy) \<and>
   threads (press NextDetail busy) = [CaptureTask] \<and>
   effects (press Capture busy) = effects busy @
     [SpeechStopped,
      Printed ''Capture already in progress. Press Ctrl+Shift+X to cancel it.'',
      Beeps [(420, 90), (380, 90)]] \<and>
   \<not> capture_lock (run_task CaptureTask (quiet_env three_parts) busy)"
proof -
  have lock: "capture_lock busy" and th: "threads busy = [CaptureTask]"
    by (simp_all add: busy_def handler_defs initial_assistant_def)
  note t = single_flight_admission[of "sample_run 2" "Some ''key''" busy CaptureTask
      "quiet_env three_parts"]
  have 1: "single_flight (effects (run (sample_run 2) (initial_assistant (Some ''key''))))"
    using t by blast
  have 2: "capture_lock (press NextDetail busy) \<and> threads (press NextDetail busy) = threads busy"
    using t lock by blast
  have 3: "effects (press Capture busy) = effects busy @
     [SpeechStopped,
      Printed ''Capture already in progress. Press Ctrl+Shift+X to cancel it.'',
      Beeps [(420, 90), (380, 90)]]"
    using t lock by blast
  have 4: "\<not> capture_lock (run_task CaptureTask (quiet_env three_parts) busy)"
    using t by blast
  show ?thesis using 1 2 3 4 lock th by simp
qed

text \<open>
  C1 as stated fails for the follow-up key: in the run below the user starts a follow-up,
  says a few words and presses the follow-up key again while the task holds the gate and
  listens. The press is not denied: no rejection cue is played anywhere in the run, the
  press is answered with the submit message, and the task goes on to narrate the answer.
\<close>

theorem follow_up_toggle_not_denied:
  "spoken (effects (run [Key FollowUp, Body toggle_env] (initial_assistant (Some ''key'')))) =
     [''Recording mode. Ask your follow-up question after the beep. Press control plus N again to send immediately.'',
      ''A settings window.''] \<and>
   Beeps [(420, 90), (380, 90)] \<notin>
     set (effects (run [Key FollowUp, Body toggle_env] (initial_assistant (Some ''key'')))) \<and>
   Printed ''Stopping recording and sending your follow-up question...'' \<in>
     set (effects (run [Key FollowUp, Body toggle_env] (initial_assistant (Some ''key'')))) \<and>
   sessions_live (effects (run [Key FollowUp, Body toggle_env] (initial_assistant (Some ''key'')))) = 0"
  by code_simp

subsection \<open>The cancellation token\<close>

lemma polls_agree_append:
  "polls_agree tok (xs @ ys) \<longleftrightarrow> polls_agree tok xs \<and> polls_agree (token_after tok xs) ys"
  by (induction xs arbitrary: tok) auto

lemma token_after_append:
  "token_after tok (xs @ ys) = token_after (token_after tok xs) ys"
  by (induction xs arbitrary: tok) auto

lemma quiet_token: "quiet_effect e \<Longrightarrow> token_change tok e = tok \<and> poll_agrees tok e"
  by (cases e) simp_all

lemma quiet_tokens:
  "list_all quiet_effect ys \<Longrightarrow> polls_agree tok ys \<and> token_after tok ys = tok"
  by (induction ys) (auto simp: quiet_token)

lemma token_inv_press: "token_inv s \<Longrightarrow> token_inv (press h s)"
  by (cases h)
     (auto simp: handler_defs token_inv_def polls_agree_append token_after_append
        split: option.splits)

lemma token_inv_reach: "body_reach s s' \<Longrightarrow> token_inv s \<Longrightarrow> token_inv s'"
proof (induction rule: body_reach.induct)
  case (pressed s s' h)
  then show ?case by (simp add: token_inv_press)
next
  case (emitted s s' effs)
  then show ?case
    by (auto simp: token_inv_def polls_agree_append token_after_append quiet_tokens)
next
  case (polled s s')
  then show ?case
    by (auto simp: poll_cancel_def token_inv_def polls_agree_append token_after_append)
qed (auto simp: token_inv_def)

lemma token_inv_task: "token_inv s \<Longrightarrow> token_inv (run_task t env s)"
proof -
  assume a: "token_inv s"
  obtain r s' where reach: "body_reach s s'" and shape: "run_task t env s = thread_end r (release s')"
    using run_task_shape[of s t env] by blast
  have "token_inv s'" using token_inv_reach[OF reach a] .
  then have "token_inv (thread_end r (release s'))"
    by (cases r)
       (auto simp: thread_end_def release_def token_inv_def polls_agree_append token_after_append)
  then show ?thesis by (simp add: shape)
qed

lemma token_inv_act: "token_inv s \<Longrightarrow> token_inv (act a s)"
proof (cases a)
  case (Key h)
  assume "token_inv s"
  then show ?thesis using Key by (simp add: token_inv_press)
next
  case (Body env)
  assume g: "token_inv s"
  show ?thesis
  proof (cases "threads s")
    case Nil
    then show ?thesis using g Body by simp
  next
    case (Cons t ts)
    have "token_inv (s\<lparr>threads := ts\<rparr>)" using g by (simp add: token_inv_def)
    then have "token_inv (run_task t env (s\<lparr>threads := ts\<rparr>))" by (rule token_inv_task)
    then show ?thesis using Body Cons by simp
  qed
qed

lemma token_inv_run: "token_inv s \<Longrightarrow> token_inv (run acts s)"
  unfolding run_def
  by (induction acts arbitrary: s) (auto simp: token_inv_act)

lemma token_inv_initial: "token_inv (initial_assistant key)"
  by (simp add: token_inv_def initial_assistant_def)

lemma token_kept_press:
  "capture_lock s \<Longrightarrow> task_cancel_event s \<Longrightarrow> task_cancel_event (press h s)"
  by (cases h) (auto simp: handler_defs split: option.splits)

lemma token_kept_reach:
  "body_reach s s' \<Longrightarrow> capture_lock s \<Longrightarrow> task_cancel_event s \<Longrightarrow>
   capture_lock s' \<and> task_cancel_event s'"
proof (induction rule: body_reach.induct)
  case (pressed s s' h)
  then show ?case by (simp add: token_kept_press press_lock_held)
qed (auto simp: poll_cancel_def)

text \<open>
  C2, amended. In every run each poll of the cancellation token reads it set exactly when
  a cancel was requested after the latest admission of a capture or follow-up task: once
  set, it is read set by every later poll of the session, and after such an admission it
  is read clear until a cancel is requested. While a task holds the gate no hotkey and no
  step of a task body clears a set token. The admission of a capture or follow-up task
  clears the token before the thread starts; the admission of a navigation task leaves
  the token as it is.
\<close>

theorem cancellation_stickiness:
  "polls_agree False (effects (run acts (initial_assistant key))) \<and>
   (capture_lock s \<and> task_cancel_event s \<longrightarrow> task_cancel_event (press h s)) \<and>
   (body_reach s s' \<and> capture_lock s \<and> task_cancel_event s \<longrightarrow> task_cancel_event s') \<and>
   (\<not> capture_lock s \<longrightarrow>
      \<not> task_cancel_event (press Capture s) \<and>
      threads (press Capture s) = threads s @ [CaptureTask] \<and>
      task_cancel_event (press NextDetail s) = task_cancel_event s \<and>
      threads (press NextDetail s) = threads s @ [NavigateTask 1] \<and>
      task_cancel_event (press PreviousDetail s) = task_cancel_event s \<and>
      threads (press PreviousDetail s) = threads s @ [NavigateTask (- 1)]) \<and>
   (\<not> capture_lock s \<and> \<not> follow_up_listening_event s \<longrightarrow>
      \<not> task_cancel_event (press FollowUp s) \<and>
      threads (press FollowUp s) = threads s @ [FollowUpTask])"
proof -
  have run: "polls_agree False (effects (run acts (initial_assistant key)))"
    using token_inv_run[OF token_inv_initial, of acts key] by (simp add: token_inv_def)
  have admit: "\<not> capture_lock s \<longrightarrow>
      \<not> task_cancel_event (press Capture s) \<and>
      threads (press Capture s) = threads s @ [CaptureTask] \<and>
      task_cancel_event (press NextDetail s) = task_cancel_event s \<and>
      threads (press NextDetail s) = threads s @ [NavigateTask 1] \<and>
      task_cancel_event (press PreviousDetail s) = task_cancel_event s \<and>
      threads (press PreviousDetail s) = threads s @ [NavigateTask (- 1)]"
    by (simp add: handler_defs emit_def)
  have admit2: "\<not> capture_lock s \<and> \<not> follow_up_listening_event s \<longrightarrow>
      \<not> task_cancel_event (press FollowUp s) \<and>
      threads (press FollowUp s) = threads s @ [FollowUpTask]"
    by (simp add: handler_defs emit_def)
  show ?thesis
    using run admit admit2 token_kept_press[of s h] token_kept_reach[of s s'] by blast
qed

theorem cancellation_stickiness_witness:
  "polls_agree False (effects (run [Key Capture, Body cancel_mid_env] (initial_assistant (Some ''key'')))) \<and>
   capture_lock (press CancelTask busy) \<and> task_cancel_event (press CancelTask busy) \<and>
   task_cancel_event (press StopSpeaking (press CancelTask busy)) \<and>
   body_reach (press CancelTask busy) (snd (poll_cancel (press CancelTask busy))) \<and>
   task_cancel_event (snd (poll_cancel (press CancelTask busy))) \<and>
   \<not> capture_lock (press CancelTask (initial_assistant None)) \<and>
   \<not> follow_up_listening_event (press CancelTask (initial_assistant None)) \<and>
   \<not> task_cancel_event (press Capture (press CancelTask (initial_assistant None))) \<and>
   \<not> task_cancel_event (press FollowUp (press CancelTask (initial_assistant None)))"
proof -
  have lock: "capture_lock (press CancelTask busy)" and tok: "task_cancel_event (press CancelTask busy)"
    by (simp_all add: busy_def handler_defs initial_assistant_def)
  have reach: "body_reach (press CancelTask busy) (snd (poll_cancel (press CancelTask busy)))"
    by (intro body_reach.polled body_reach.here)
  have idle: "\<not> capture_lock (press CancelTask (initial_assistant None))"
    and quiet: "\<not> follow_up_listening_event (press CancelTask (initial_assistant None))"
    by (simp_all add: handler_defs initial_assistant_def)
  note t1 = cancellation_stickiness[of "[Key Capture, Body cancel_mid_env]" "Some ''key''"
      "press CancelTask busy" StopSpeaking "snd (poll_cancel (press CancelTask busy))"]
  note t2 = cancellation_stickiness[of "[]" None "press CancelTask (initial_assistant None)"
      StopSpeaking "press CancelTask (initial_assistant None)"]
  have 1: "polls_agree False (effects (run [Key Capture, Body cancel_mid_env] (initial_assistant (Some ''key''))))"
    using t1 by blast
  have 2: "task_cancel_event (press StopSpeaking (press CancelTask busy))"
    using t1 lock tok by blast
  have 3: "task_cancel_event (snd (poll_cancel (press CancelTask busy)))"
    using t1 lock tok reach by blast
  have 4: "\<not> task_cancel_event (press Capture (press CancelTask (initial_assistant None)))"
    using t2 idle by blast
  have 5: "\<not> task_cancel_event (press FollowUp (press CancelTask (initial_assistant None)))"
    using t2 idle quiet by blast
  show ?thesis using 1 2 3 4 5 lock tok reach idle quiet by simp
qed

text \<open>
  C2 as stated fails for navigation: after a cancel request in the idle state the token is
  set, and the next-detail key is then admitted (the gate is taken and the navigation
  thread is started) with the token still set.
\<close>

theorem navigation_admission_keeps_token:
  "threads (run [Key CancelTask, Key NextDetail] (initial_assistant None)) = [NavigateTask 1] \<and>
   capture_lock (run [Key CancelTask, Key NextDetail] (initial_assistant None)) \<and>
   task_cancel_event (run [Key CancelTask, Key NextDetail] (initial_assistant None))"
  by (simp add: run_def handler_defs initial_assistant_def emit_def)

subsection \<open>Stopping the speech\<close>

text \<open>
  C5, amended. The stop-speaking key leaves the cancellation token, the gate, the started
  threads and the active task name as they are and sets the suppression signal. A
  \<^verbatim>\<open>speak\<close> call never changes the signal: a call that finds it set is a silent no-op and
  leaves it set. The signal is cleared by the handler of the next capture, follow-up or
  navigation key that is admitted, and by the set-key handler; a \<^verbatim>\<open>speak\<close> call that
  then finds the signal clear and a working first backend is audible.
\<close>

theorem stop_speech_orthogonal:
  "task_cancel_event (press StopSpeaking s) = task_cancel_event s \<and>
   capture_lock (press StopSpeaking s) = capture_lock s \<and>
   threads (press StopSpeaking s) = threads s \<and>
   active_task_name (press StopSpeaking s) = active_task_name s \<and>
   speech_stop_event (press StopSpeaking s) \<and>
   speech_stop_event (snd (say env k u i s)) = speech_stop_event s \<and>
   (speech_stop_event s \<longrightarrow> say env k u i s = (None, emit [Narration u [Suppressed]] s)) \<and>
   (\<not> capture_lock s \<longrightarrow>
      \<not> speech_stop_event (press Capture s) \<and>
      \<not> speech_stop_event (press NextDetail s) \<and>
      \<not> speech_stop_event (press PreviousDetail s)) \<and>
   (\<not> capture_lock s \<and> \<not> follow_up_listening_event s \<longrightarrow>
      \<not> speech_stop_event (press FollowUp s)) \<and>
   \<not> speech_stop_event (press SetApiKey s) \<and>
   (\<not> speech_stop_event s \<and> speech env k = clear_speech \<longrightarrow>
      say env k u False s =
        (None, emit [Narration u [Attempt 0 WaveFile, Audible WaveFile u]] s))"
proof -
  have frame: "task_cancel_event (press StopSpeaking s) = task_cancel_event s \<and>
   capture_lock (press StopSpeaking s) = capture_lock s \<and>
   threads (press StopSpeaking s) = threads s \<and>
   active_task_name (press StopSpeaking s) = active_task_name s \<and>
   speech_stop_event (press StopSpeaking s)"
    by (simp add: handler_defs)
  have keeps: "speech_stop_event (snd (say env k u i s)) = speech_stop_event s"
    by (simp add: say_def Let_def split: prod.splits)
  have silent: "speech_stop_event s \<longrightarrow> say env k u i s = (None, emit [Narration u [Suppressed]] s)"
    by (simp add: say_def speak_def)
  have clears: "(\<not> capture_lock s \<longrightarrow>
      \<not> speech_stop_event (press Capture s) \<and>
      \<not> speech_stop_event (press NextDetail s) \<and>
      \<not> speech_stop_event (press PreviousDetail s)) \<and>
   (\<not> capture_lock s \<and> \<not> follow_up_listening_event s \<longrightarrow>
      \<not> speech_stop_event (press FollowUp s)) \<and>
   \<not> speech_stop_event (press SetApiKey s)"
    by (simp add: handler_defs)
  have audible: "\<not> speech_stop_event s \<and> speech env k = clear_speech \<longrightarrow>
      say env k u False s =
        (None, emit [Narration u [Attempt 0 WaveFile, Audible WaveFile u]] s)"
    by (simp add: say_def speak_def clear_speech_def speak_iteration_def
          speak_via_wave_file_def)
  show ?thesis using frame keeps silent clears audible by blast
qed

theorem stop_speech_orthogonal_witness:
  "task_cancel_event (press StopSpeaking busy) = task_cancel_event busy \<and>
   speech_stop_event (press StopSpeaking busy) \<and>
   say (quiet_env []) 0 ''hello'' False (press StopSpeaking busy) =
     (None, emit [Narration ''hello'' [Suppressed]] (press StopSpeaking busy)) \<and>
   \<not> capture_lock (press StopSpeaking (initial_assistant None)) \<and>
   \<not> follow_up_listening_event (press StopSpeaking (initial_assistant None)) \<and>
   \<not> speech_stop_event (press NextDetail (press StopSpeaking (initial_assistant None))) \<and>
   \<not> speech_stop_event (press FollowUp (press StopSpeaking (initial_assistant None))) \<and>
   \<not> speech_stop_event (press NextDetail (press StopSpeaking (initial_assistant None))) \<and>
   speech (quiet_env []) 0 = clear_speech \<and>
   say (quiet_env []) 0 ''hello'' False (press NextDetail (press StopSpeaking (initial_assistant None))) =
     (None, emit [Narration ''hello'' [Attempt 0 WaveFile, Audible WaveFile ''hello'']]
              (press NextDetail (press StopSpeaking (initial_assistant None))))"
proof -
  let ?stopped = "press StopSpeaking busy"
  let ?idle = "press StopSpeaking (initial_assistant None)"
  have set: "speech_stop_event ?stopped" by (simp add: handler_defs)
  have idle: "\<not> capture_lock ?idle" and quiet: "\<not> follow_up_listening_event ?idle"
    by (simp_all add: handler_defs initial_assistant_def)
  have sp: "speech (quiet_env []) 0 = clear_speech" by (simp add: quiet_env_def)
  note t1 = stop_speech_orthogonal[of busy "quiet_env []" 0 "''hello''" False]
  note t2 = stop_speech_orthogonal[of ?stopped "quiet_env []" 0 "''hello''" False]
  note t3 = stop_speech_orthogonal[of ?idle "quiet_env []" 0 "''hello''" False]
  note t4 = stop_speech_orthogonal[of "press NextDetail ?idle" "quiet_env []" 0 "''hello''" False]
  have 1: "task_cancel_event ?stopped = task_cancel_event busy" using t1 by blast
  have 2: "say (quiet_env []) 0 ''hello'' False ?stopped =
     (None, emit [Narration ''hello'' [Suppressed]] ?stopped)"
    using t2 set by blast
  have 3: "\<not> speech_stop_event (press NextDetail ?idle)" using t3 idle by blast
  have 4: "\<not> speech_stop_event (press FollowUp ?idle)" using t3 idle quiet by blast
  have 5: "say (quiet_env []) 0 ''hello'' False (press NextDetail ?idle) =
     (None, emit [Narration ''hello'' [Attempt 0 WaveFile, Audible WaveFile ''hello'']]
              (press NextDetail ?idle))"
    using t4 3 sp by blast
  show ?thesis using 1 2 3 4 5 set idle quiet sp by simp
qed

text \<open>
  C5 as stated fails: the stop-speaking key pressed while the capture task says
  \<^verbatim>\<open>Summary is ready.\<close> silences the next \<^verbatim>\<open>speak\<close> call of the task, the summary itself,
  and the one after it; the signal is still set when the task ends.
\<close>

theorem stop_speech_silences_next_speak:
  "spoken (effects (run [Key Capture, Body stop_mid_env] (initial_assistant (Some ''key'')))) =
     [''Summary is ready.''] \<and>
   Narration ''Summary. First part. Second part.'' [Suppressed] \<in>
     set (effects (run [Key Capture, Body stop_mid_env] (initial_assistant (Some ''key'')))) \<and>
   speech_stop_event (run [Key Capture, Body stop_mid_env] (initial_assistant (Some ''key'')))"
  by code_simp

subsection \<open>The dictation loop\<close>

lemma record_pass_cancel_top:
  "elapsed_at_test it < 1000 * m \<Longrightarrow> task_cancel_event (before_attempt it s) \<Longrightarrow>
   record_pass m c it chunks s = (Stop None, snd (poll_cancel (before_attempt it s)))"
  by (simp add: record_pass_def before_attempt_def poll_cancel_def)

lemma record_pass_submit_top:
  "elapsed_at_test it < 1000 * m \<Longrightarrow> \<not> task_cancel_event (before_attempt it s) \<Longrightarrow>
   follow_up_submit_event (before_attempt it s) \<Longrightarrow>
   record_pass m c it chunks s = (Stop (finish_recording chunks), snd (poll_cancel (before_attempt it s)))"
  by (simp add: record_pass_def before_attempt_def poll_cancel_def)

lemma record_pass_cancel_after:
  "elapsed_at_test it < 1000 * m \<Longrightarrow> \<not> task_cancel_event (before_attempt it s) \<Longrightarrow>
   \<not> follow_up_submit_event (before_attempt it s) \<Longrightarrow> task_cancel_event (after_attempt it s) \<Longrightarrow>
   record_pass m c it chunks s = (Stop None, snd (poll_cancel (after_attempt it s)))"
  by (simp add: record_pass_def before_attempt_def after_attempt_def poll_cancel_def Let_def)

lemma record_pass_submit_after:
  "elapsed_at_test it < 1000 * m \<Longrightarrow> \<not> task_cancel_event (before_attempt it s) \<Longrightarrow>
   \<not> follow_up_submit_event (before_attempt it s) \<Longrightarrow> \<not> task_cancel_event (after_attempt it s) \<Longrightarrow>
   follow_up_submit_event (after_attempt it s) \<Longrightarrow>
   fst (record_pass m c it chunks s) =
     Stop (finish_recording
            (fst (keep_chunk (heard_chunk m c it) chunks (snd (poll_cancel (after_attempt it s))))))"
  by (simp add: record_pass_def before_attempt_def after_attempt_def poll_cancel_def Let_def
        heard_chunk_def keep_chunk_def split: option.splits prod.splits)

lemma record_pass_silent:
  assumes "heard_chunk m c it = None"
  shows "fst (record_pass m c it [] s) = Stop None \<or> fst (record_pass m c it [] s) = Next []"
  using assms
  by (auto simp: record_pass_def poll_cancel_def Let_def heard_chunk_def keep_chunk_def
        finish_recording_def split: prod.splits bool.splits)

lemma record_loop_silent:
  "\<forall>p \<in> set passes. heard_chunk m c p = None \<Longrightarrow> fst (record_loop m c passes [] s) = None"
proof (induction passes arbitrary: s)
  case Nil
  then show ?case by (simp add: finish_recording_def)
next
  case (Cons it its)
  obtain r s1 where p: "record_pass m c it [] s = (r, s1)"
    by (cases "record_pass m c it [] s") auto
  have "r = Stop None \<or> r = Next []"
    using record_pass_silent[of m c it s] Cons.prems p by simp
  then show ?case
    using p Cons.IH[of s1] Cons.prems by auto
qed


lemma keep_chunk_chunks:
  "fst (keep_chunk ch chunks s) =
     chunks @ (case ch of None \<Rightarrow> [] | Some w \<Rightarrow> if strip w = [] then [] else [strip w])"
  by (auto simp: keep_chunk_def strip_def split: option.splits)

lemma cancel_sets [simp]:
  "task_cancel_event (on_cancel_task_hotkey s)" "follow_up_submit_event (on_cancel_task_hotkey s)"
  by (auto simp: handler_defs split: option.splits)

lemma recording_flags:
  "capture_lock recording" "\<not> task_cancel_event recording"
  "\<not> follow_up_submit_event recording" "follow_up_listening_event recording"
  by (simp_all add: recording_def handler_defs initial_assistant_def)

text \<open>
  C6, amended. A pass whose polls read the cancellation token as set, before or after its
  attempt, ends the recording with \<open>None\<close>, whatever was accumulated. A recording in
  which no attempt returns a transcript also ends with \<open>None\<close>. The two outcomes are the
  same value; the caller tells them apart by polling the token after the recording
  returns: with the token set it prints the cancellation and returns, with the token
  clear it narrates that it could not understand the question.
\<close>

theorem dictation_cancel_outcome:
  "(elapsed_at_test it < 1000 * m \<and> task_cancel_event (before_attempt it s) \<longrightarrow>
      fst (record_loop m c (it # its) chunks s) = None) \<and>
   (elapsed_at_test it < 1000 * m \<and> \<not> task_cancel_event (before_attempt it s) \<and>
    \<not> follow_up_submit_event (before_attempt it s) \<and> task_cancel_event (after_attempt it s) \<longrightarrow>
      fst (record_loop m c (it # its) chunks s) = None) \<and>
   ((\<forall>p \<in> set passes. heard_chunk m c p = None) \<longrightarrow>
      fst (record_follow_up_question m c passes s) = None) \<and>
   (task_cancel_event (arrive env 2 s) \<longrightarrow>
      follow_up_after_recording env None s =
        (Return, emit [Printed ''Follow-up canceled.''] (snd (poll_cancel (arrive env 2 s))))) \<and>
   (\<not> task_cancel_event (arrive env 2 s) \<longrightarrow>
      follow_up_after_recording env None s =
        then_do (narrate env 4 not_understood_message False
                   (emit [Printed not_understood_message] (snd (poll_cancel (arrive env 2 s)))))
          (\<lambda>_ s. (Return, emit [Beeps [(420, 90), (380, 90)]] s)))"
proof -
  have top: "elapsed_at_test it < 1000 * m \<and> task_cancel_event (before_attempt it s) \<longrightarrow>
      fst (record_loop m c (it # its) chunks s) = None"
    by (simp add: record_pass_cancel_top)
  have after: "elapsed_at_test it < 1000 * m \<and> \<not> task_cancel_event (before_attempt it s) \<and>
    \<not> follow_up_submit_event (before_attempt it s) \<and> task_cancel_event (after_attempt it s) \<longrightarrow>
      fst (record_loop m c (it # its) chunks s) = None"
    by (simp add: record_pass_cancel_after)
  have silent: "(\<forall>p \<in> set passes. heard_chunk m c p = None) \<longrightarrow>
      fst (record_follow_up_question m c passes s) = None"
    by (simp add: record_follow_up_question_def record_loop_silent)
  have caller1: "task_cancel_event (arrive env 2 s) \<longrightarrow>
      follow_up_after_recording env None s =
        (Return, emit [Printed ''Follow-up canceled.''] (snd (poll_cancel (arrive env 2 s))))"
    by (simp add: follow_up_after_recording_def check_cancel_def poll_cancel_def)
  have caller2: "\<not> task_cancel_event (arrive env 2 s) \<longrightarrow>
      follow_up_after_recording env None s =
        then_do (narrate env 4 not_understood_message False
                   (emit [Printed not_understood_message] (snd (poll_cancel (arrive env 2 s)))))
          (\<lambda>_ s. (Return, emit [Beeps [(420, 90), (380, 90)]] s))"
    by (simp add: follow_up_after_recording_def check_cancel_def poll_cancel_def)
  show ?thesis using top after silent caller1 caller2 by blast
qed

theorem dictation_cancel_outcome_witness:
  "elapsed_at_test cancel_before < 1000 * 30 \<and>
   task_cancel_event (before_attempt cancel_before recording) \<and>
   fst (record_loop 30 3 [cancel_before] [''what is this''] recording) = None \<and>
   \<not> task_cancel_event (before_attempt cancel_during recording) \<and>
   \<not> follow_up_submit_event (before_attempt cancel_during recording) \<and>
   task_cancel_event (after_attempt cancel_during recording) \<and>
   fst (record_loop 30 3 [cancel_during] [''what is this''] recording) = None \<and>
   list_all (\<lambda>p. heard_chunk 30 3 p = None) silent_passes \<and>
   fst (record_follow_up_question 30 3 silent_passes recording) = None \<and>
   task_cancel_event (arrive (quiet_env []) 2 (press CancelTask recording)) \<and>
   fst (follow_up_after_recording (quiet_env []) None (press CancelTask recording)) = Return \<and>
   \<not> task_cancel_event (arrive (quiet_env []) 2 recording) \<and>
   spoken (effects (snd (follow_up_after_recording (quiet_env []) None recording))) =
     [not_understood_message]"
proof -
  have e1: "elapsed_at_test cancel_before < 1000 * 30"
    and e2: "elapsed_at_test cancel_during < 1000 * 30"
    by (simp_all add: cancel_before_def cancel_during_def pass_def)
  have c1: "task_cancel_event (before_attempt cancel_before recording)"
    by (simp add: before_attempt_def cancel_before_def pass_def handle_all_def)
  have c2: "\<not> task_cancel_event (before_attempt cancel_during recording)"
    and c3: "\<not> follow_up_submit_event (before_attempt cancel_during recording)"
    by (simp_all add: before_attempt_def cancel_during_def pass_def handle_all_def
          recording_flags)
  have c4: "task_cancel_event (after_attempt cancel_during recording)"
    by (simp add: after_attempt_def before_attempt_def cancel_during_def pass_def
          handle_all_def poll_cancel_def)
  have quiet: "list_all (\<lambda>p. heard_chunk 30 3 p = None) silent_passes"
    by code_simp
  then have quiet': "\<forall>p \<in> set silent_passes. heard_chunk 30 3 p = None"
    by (simp add: list_all_iff)
  have k1: "task_cancel_event (arrive (quiet_env []) 2 (press CancelTask recording))"
    by (simp add: arrive_def quiet_env_def handle_all_def)
  have k2: "\<not> task_cancel_event (arrive (quiet_env []) 2 recording)"
    by (simp add: arrive_def quiet_env_def handle_all_def recording_flags)
  note t1 = dictation_cancel_outcome[of cancel_before 30 recording 3 "[]" "[''what is this'']"
      silent_passes "quiet_env []"]
  note t2 = dictation_cancel_outcome[of cancel_during 30 "press CancelTask recording" 3 "[]"
      "[''what is this'']" silent_passes "quiet_env []"]
  note t3 = dictation_cancel_outcome[of cancel_during 30 recording 3 "[]" "[''what is this'']"
      silent_passes "quiet_env []"]
  have 1: "fst (record_loop 30 3 [cancel_before] [''what is this''] recording) = None"
    using t1 e1 c1 by blast
  have 2: "fst (record_loop 30 3 [cancel_during] [''what is this''] recording) = None"
    using t3 e2 c2 c3 c4 by blast
  have 3: "fst (record_follow_up_question 30 3 silent_passes recording) = None"
    using t1 quiet' by blast
  have 4: "follow_up_after_recording (quiet_env []) None (press CancelTask recording) =
        (Return, emit [Printed ''Follow-up canceled.'']
                   (snd (poll_cancel (arrive (quiet_env []) 2 (press CancelTask recording)))))"
    using t2 k1 by blast
  have 5: "follow_up_after_recording (quiet_env []) None recording =
        then_do (narrate (quiet_env []) 4 not_understood_message False
                   (emit [Printed not_understood_message]
                      (snd (poll_cancel (arrive (quiet_env []) 2 recording)))))
          (\<lambda>_ s. (Return, emit [Beeps [(420, 90), (380, 90)]] s))"
    using t3 k2 by blast
  have 6: "spoken (effects (snd (then_do (narrate (quiet_env []) 4 not_understood_message False
                   (emit [Printed not_understood_message]
                      (snd (poll_cancel (arrive (quiet_env []) 2 recording)))))
          (\<lambda>_ s. (Return, emit [Beeps [(420, 90), (380, 90)]] s))))) = [not_understood_message]"
    by code_simp
  show ?thesis using e1 c1 1 c2 c3 c4 2 quiet 3 k1 4 k2 5 6 by simp
qed

text \<open>
  C6 as stated fails: a recording canceled during its first attempt and a recording in
  which nothing is heard for thirty seconds return the same value, \<open>None\<close>; only the
  token differs afterwards.
\<close>

theorem canceled_and_silent_both_none:
  "fst (record_follow_up_question 30 3 canceled_passes recording) = None \<and>
   fst (record_follow_up_question 30 3 silent_passes recording) = None \<and>
   task_cancel_event (snd (record_follow_up_question 30 3 canceled_passes recording)) \<and>
   \<not> task_cancel_event (snd (record_follow_up_question 30 3 silent_passes recording))"
  by code_simp

text \<open>
  C7, amended. A pass whose first polls read the token clear and the submit signal set
  ends the recording at once, with no attempt, with the accumulated chunks; a pass whose
  polls after the attempt read the token clear and the submit signal set ends it with the
  accumulated chunks and the chunk of that attempt, if any. The passes that would follow
  play no part. A non-empty accumulation is returned joined by single spaces.
\<close>

theorem dictation_early_submit:
  "(elapsed_at_test it < 1000 * m \<and> \<not> task_cancel_event (before_attempt it s) \<and>
    follow_up_submit_event (before_attempt it s) \<longrightarrow>
      record_loop m c (it # its) chunks s =
        (finish_recording chunks, snd (poll_cancel (before_attempt it s)))) \<and>
   (elapsed_at_test it < 1000 * m \<and> \<not> task_cancel_event (before_attempt it s) \<and>
    \<not> follow_up_submit_event (before_attempt it s) \<and> \<not> task_cancel_event (after_attempt it s) \<and>
    follow_up_submit_event (after_attempt it s) \<longrightarrow>
      fst (record_loop m c (it # its) chunks s) =
        finish_recording
          (chunks @ (case heard_chunk m c it of None \<Rightarrow> []
                     | Some w \<Rightarrow> if strip w = [] then [] else [strip w]))) \<and>
   (chunks \<noteq> [] \<longrightarrow> finish_recording (chunks @ extra) = Some (join_spaces (chunks @ extra)))"
proof -
  have top: "elapsed_at_test it < 1000 * m \<and> \<not> task_cancel_event (before_attempt it s) \<and>
    follow_up_submit_event (before_attempt it s) \<longrightarrow>
      record_loop m c (it # its) chunks s =
        (finish_recording chunks, snd (poll_cancel (before_attempt it s)))"
    by (simp add: record_pass_submit_top)
  have after: "elapsed_at_test it < 1000 * m \<and> \<not> task_cancel_event (before_attempt it s) \<and>
    \<not> follow_up_submit_event (before_attempt it s) \<and> \<not> task_cancel_event (after_attempt it s) \<and>
    follow_up_submit_event (after_attempt it s) \<longrightarrow>
      fst (record_loop m c (it # its) chunks s) =
        finish_recording
          (chunks @ (case heard_chunk m c it of None \<Rightarrow> []
                     | Some w \<Rightarrow> if strip w = [] then [] else [strip w]))"
  proof (intro impI, elim conjE)
    assume a: "elapsed_at_test it < 1000 * m" "\<not> task_cancel_event (before_attempt it s)"
      "\<not> follow_up_submit_event (before_attempt it s)" "\<not> task_cancel_event (after_attempt it s)"
      "follow_up_submit_event (after_attempt it s)"
    obtain r s1 where p: "record_pass m c it chunks s = (r, s1)"
      by (cases "record_pass m c it chunks s") auto
    have "r = Stop (finish_recording
            (fst (keep_chunk (heard_chunk m c it) chunks (snd (poll_cancel (after_attempt it s))))))"
      using record_pass_submit_after[OF a, of c chunks] p by simp
    then show "fst (record_loop m c (it # its) chunks s) =
        finish_recording
          (chunks @ (case heard_chunk m c it of None \<Rightarrow> []
                     | Some w \<Rightarrow> if strip w = [] then [] else [strip w]))"
      using p by (simp add: keep_chunk_chunks)
  qed
  have joined: "chunks \<noteq> [] \<longrightarrow> finish_recording (chunks @ extra) = Some (join_spaces (chunks @ extra))"
    by (simp add: finish_recording_def)
  show ?thesis using top after joined by blast
qed

theorem dictation_early_submit_witness:
  "elapsed_at_test submit_before < 1000 * 30 \<and>
   \<not> task_cancel_event (before_attempt submit_before recording) \<and>
   follow_up_submit_event (before_attempt submit_before recording) \<and>
   fst (record_loop 30 3 [submit_before, pass 6000 (hearing ''more'') []]
          [''what'', ''is this''] recording) = Some ''what is this'' \<and>
   \<not> task_cancel_event (before_attempt submit_during recording) \<and>
   \<not> follow_up_submit_event (before_attempt submit_during recording) \<and>
   \<not> task_cancel_event (after_attempt submit_during recording) \<and>
   follow_up_submit_event (after_attempt submit_during recording) \<and>
   fst (record_loop 30 3 [submit_during, pass 6000 (hearing ''more'') []]
          [''what'', ''is this''] recording) = Some ''what is this''"
proof -
  have e1: "elapsed_at_test submit_before < 1000 * 30"
    and e2: "elapsed_at_test submit_during < 1000 * 30"
    by (simp_all add: submit_before_def submit_during_def pass_def)
  have b1: "\<not> task_cancel_event (before_attempt submit_before recording)"
    and b2: "follow_up_submit_event (before_attempt submit_before recording)"
    by (simp_all add: before_attempt_def submit_before_def pass_def handle_all_def
          handler_defs recording_flags)
  have d1: "\<not> task_cancel_event (before_attempt submit_during recording)"
    and d2: "\<not> follow_up_submit_event (before_attempt submit_during recording)"
    by (simp_all add: before_attempt_def submit_during_def pass_def handle_all_def
          recording_flags)
  have d3: "\<not> task_cancel_event (after_attempt submit_during recording)"
    and d4: "follow_up_submit_event (after_attempt submit_during recording)"
    by (simp_all add: after_attempt_def before_attempt_def submit_during_def pass_def
          handle_all_def handler_defs poll_cancel_def recording_flags)
  have h: "heard_chunk 30 3 submit_during = None" by code_simp
  have j: "join_spaces [''what'', ''is this''] = ''what is this''" by simp
  note t1 = dictation_early_submit[of submit_before 30 recording 3
      "[pass 6000 (hearing ''more'') []]" "[''what'', ''is this'']" "[]"]
  note t2 = dictation_early_submit[of submit_during 30 recording 3
      "[pass 6000 (hearing ''more'') []]" "[''what'', ''is this'']" "[]"]
  have 1: "record_loop 30 3 [submit_before, pass 6000 (hearing ''more'') []]
          [''what'', ''is this''] recording =
        (finish_recording [''what'', ''is this''],
         snd (poll_cancel (before_attempt submit_before recording)))"
    using t1 e1 b1 b2 by blast
  have 2: "fst (record_loop 30 3 [submit_during, pass 6000 (hearing ''more'') []]
          [''what'', ''is this''] recording) =
        finish_recording ([''what'', ''is this''] @
          (case heard_chunk 30 3 submit_during of None \<Rightarrow> []
           | Some w \<Rightarrow> if strip w = [] then [] else [strip w]))"
    using t2 e2 d1 d2 d3 d4 by blast
  have 3: "finish_recording ([''what'', ''is this''] @ []) =
      Some (join_spaces ([''what'', ''is this''] @ []))"
    using t1 by blast
  show ?thesis using e1 b1 b2 1 d1 d2 d3 d4 2 3 h j by simp
qed

text \<open>
  C7 as stated fails when the submit signal is set by the cancel key, which sets both
  events: after one chunk was heard, the cancel key pressed during the second attempt
  leaves the submit signal set, and the recording returns \<open>None\<close>, not the chunk.
\<close>

theorem cancel_beats_submit:
  "fst (record_follow_up_question 30 3 cancel_after_chunk recording) = None \<and>
   follow_up_submit_event (snd (record_follow_up_question 30 3 cancel_after_chunk recording)) \<and>
   Printed ''Heard: what is this'' \<in>
     set (effects (snd (record_follow_up_question 30 3 cancel_after_chunk recording)))"
  by code_simp

end
